theory Spec2Isabelle
  imports Complex_Main "HOL-Library.Word" "HOL-Library.AList" "HOL-Library.Sublist"
begin

unbundle bit_operations_syntax

section \<open>Bytes, exceptions and the entropy source\<close>

type_synonym byte = "8 word"
type_synonym bytes = "byte list"

text \<open>The Python exceptions that the modelled code raises or catches.\<close>

datatype exn =
    ValueError | ConnectionError | OverflowError | RuntimeError | IndexError
  | UnicodeDecodeError | OtherError

text \<open>
  \<^verbatim>\<open>os.urandom(n)\<close> reads the next \<open>n\<close> bytes of the operating system's entropy
  source. The source is an infinite tape of bytes; reading advances it.
\<close>

type_synonym rng = "nat \<Rightarrow> byte"

definition os_urandom :: "rng \<Rightarrow> nat \<Rightarrow> bytes \<times> rng" where
  "os_urandom r n = (map r [0..<n], \<lambda>i. r (i + n))"

text \<open>
  A Python \<^verbatim>\<open>str\<close> is modelled by the bytes of its UTF-8 encoding, one \<open>char\<close> per
  byte, so \<^verbatim>\<open>str.encode()\<close> copies the bytes and \<^verbatim>\<open>bytes.decode()\<close> copies them back
  after checking that they are well-formed UTF-8.
\<close>

definition encode :: "string \<Rightarrow> bytes" where
  "encode s = map (\<lambda>c. of_nat (of_char c)) s"

definition cont :: "byte \<Rightarrow> bool" where
  "cont b \<longleftrightarrow> 0x80 \<le> b \<and> b \<le> 0xBF"

fun utf8_valid :: "bytes \<Rightarrow> bool" where
  "utf8_valid [] = True"
| "utf8_valid (b # bs) =
     (if b \<le> 0x7F then utf8_valid bs
      else if 0xC2 \<le> b \<and> b \<le> 0xDF then
        (case bs of c # r \<Rightarrow> cont c \<and> utf8_valid r | _ \<Rightarrow> False)
      else if 0xE0 \<le> b \<and> b \<le> 0xEF then
        (case bs of
           c # d # r \<Rightarrow>
             (if b = 0xE0 then 0xA0 \<le> c else True) \<and> (if b = 0xED then c \<le> 0x9F else True)
             \<and> cont c \<and> cont d \<and> utf8_valid r
         | _ \<Rightarrow> False)
      else if 0xF0 \<le> b \<and> b \<le> 0xF4 then
        (case bs of
           c # d # e # r \<Rightarrow>
             (if b = 0xF0 then 0x90 \<le> c else True) \<and> (if b = 0xF4 then c \<le> 0x8F else True)
             \<and> cont c \<and> cont d \<and> cont e \<and> utf8_valid r
         | _ \<Rightarrow> False)
      else False)"

definition decode :: "bytes \<Rightarrow> exn + string" where
  "decode bs =
     (if utf8_valid bs then Inr (map (\<lambda>b. char_of (unat b)) bs) else Inl UnicodeDecodeError)"

text \<open>\<^verbatim>\<open>int.from_bytes(b, 'big')\<close> and \<^verbatim>\<open>n.to_bytes(w, 'big')\<close>; the latter raises
  \<^verbatim>\<open>OverflowError\<close> when \<open>n\<close> does not fit into \<open>w\<close> bytes.\<close>

definition from_bytes_big :: "bytes \<Rightarrow> nat" where
  "from_bytes_big bs = foldl (\<lambda>a b. a * 256 + unat b) 0 bs"

definition to_bytes_big :: "nat \<Rightarrow> nat \<Rightarrow> exn + bytes" where
  "to_bytes_big n w =
     (if n < 256 ^ w then Inr (map (\<lambda>i. of_nat (n div 256 ^ (w - 1 - i))) [0..<w])
      else Inl OverflowError)"

section \<open>Encryption.py: AES-CBC with PKCS7 padding\<close>

text \<open>
  The AES block transformation itself lives in the \<^verbatim>\<open>cryptography\<close> package; the
  model takes it as a parameter: a keyed function on blocks for each direction.
\<close>

record block_cipher =
  encrypt_block :: "bytes \<Rightarrow> bytes \<Rightarrow> bytes"
  decrypt_block :: "bytes \<Rightarrow> bytes \<Rightarrow> bytes"

text \<open>What AES guarantees for every admissible key: blocks of 16 bytes are mapped to blocks
  of 16 bytes, and the inverse cipher undoes the forward cipher.\<close>

definition aes_key_size_ok :: "bytes \<Rightarrow> bool" where
  "aes_key_size_ok key \<longleftrightarrow> length key = 16 \<or> length key = 24 \<or> length key = 32"

definition block_cipher_ok :: "block_cipher \<Rightarrow> bool" where
  "block_cipher_ok C \<longleftrightarrow>
     (\<forall>key b. aes_key_size_ok key \<longrightarrow> length b = 16 \<longrightarrow>
        length (encrypt_block C key b) = 16 \<and>
        decrypt_block C key (encrypt_block C key b) = b)"

definition xor_bytes :: "bytes \<Rightarrow> bytes \<Rightarrow> bytes" where
  "xor_bytes a b = map2 (XOR) a b"

text \<open>\<^verbatim>\<open>PKCS7(128).padder()\<close>: append \<open>n\<close> bytes of value \<open>n\<close>, where \<open>n\<close> fills the
  last block; a full block of padding is added when the text already ends on a block
  boundary.\<close>

definition pkcs7_pad :: "bytes \<Rightarrow> bytes" where
  "pkcs7_pad text = (let n = 16 - length text mod 16 in text @ replicate n (of_nat n))"

text \<open>\<^verbatim>\<open>PKCS7(128).unpadder()\<close>: the data must be a positive number of whole blocks, the
  last byte \<open>n\<close> must lie in \<open>1..16\<close> and the last \<open>n\<close> bytes must all be \<open>n\<close>.\<close>

definition pkcs7_unpad :: "bytes \<Rightarrow> exn + bytes" where
  "pkcs7_unpad padded =
     (if padded = [] \<or> length padded mod 16 \<noteq> 0 then Inl ValueError
      else let n = unat (last padded) in
        if n = 0 \<or> 16 < n then Inl ValueError
        else if drop (length padded - n) padded \<noteq> replicate n (last padded)
          then Inl ValueError
        else Inr (take (length padded - n) padded))"

text \<open>CBC mode over whole blocks: \<open>prev\<close> is the IV for the first block and the previous
  ciphertext block afterwards.\<close>

function cbc_encrypt :: "(bytes \<Rightarrow> bytes) \<Rightarrow> bytes \<Rightarrow> bytes \<Rightarrow> bytes" where
  "cbc_encrypt E prev data =
     (if data = [] then []
      else let c = E (xor_bytes (take 16 data) prev)
           in c @ cbc_encrypt E c (drop 16 data))"
  by pat_completeness auto
termination
  by (relation "measure (\<lambda>(E, prev, data). length data)") auto

function cbc_decrypt :: "(bytes \<Rightarrow> bytes) \<Rightarrow> bytes \<Rightarrow> bytes \<Rightarrow> bytes" where
  "cbc_decrypt D prev data =
     (if data = [] then []
      else let c = take 16 data
           in xor_bytes (D c) prev @ cbc_decrypt D c (drop 16 data))"
  by pat_completeness auto
termination
  by (relation "measure (\<lambda>(D, prev, data). length data)") auto

declare cbc_encrypt.simps [simp del] cbc_decrypt.simps [simp del]

text \<open>
  \<^verbatim>\<open>encrypt_aes(key, text)\<close>. The IV is drawn first; \<^verbatim>\<open>algorithms.AES(key)\<close> raises
  \<^verbatim>\<open>ValueError\<close> on a key of the wrong size. The entropy source is threaded through.
\<close>

definition encrypt_aes :: "block_cipher \<Rightarrow> rng \<Rightarrow> bytes \<Rightarrow> bytes \<Rightarrow> (exn + bytes \<times> bytes) \<times> rng" where
  "encrypt_aes C r key text =
     (let (iv, r') = os_urandom r 16;
          padded_data = pkcs7_pad text
      in if \<not> aes_key_size_ok key then (Inl ValueError, r')
         else (Inr (iv, cbc_encrypt (encrypt_block C key) iv padded_data), r'))"

text \<open>
  \<^verbatim>\<open>decrypt_aes(key, iv, ciphertext)\<close>: \<^verbatim>\<open>ValueError\<close> on a key or IV of the wrong size,
  on a ciphertext that is not a whole number of blocks (the decryptor's
  \<^verbatim>\<open>finalize\<close>), and on invalid padding.
\<close>

definition decrypt_aes :: "block_cipher \<Rightarrow> bytes \<Rightarrow> bytes \<Rightarrow> bytes \<Rightarrow> exn + bytes" where
  "decrypt_aes C key iv ciphertext =
     (if \<not> aes_key_size_ok key then Inl ValueError
      else if length iv \<noteq> 16 then Inl ValueError
      else if length ciphertext mod 16 \<noteq> 0 then Inl ValueError
      else pkcs7_unpad (cbc_decrypt (decrypt_block C key) iv ciphertext))"

text \<open>A stand-in block cipher used to instantiate the parameter at concrete inputs: it adds
  the first 16 key bytes to the block, bit by bit, and so is its own inverse.\<close>

definition xor_cipher :: block_cipher where
  "xor_cipher = \<lparr>encrypt_block = (\<lambda>key b. xor_bytes b (take 16 key)),
                  decrypt_block = (\<lambda>key b. xor_bytes b (take 16 key))\<rparr>"

section \<open>FunctionsModule.py: receiving an exact number of bytes\<close>

text \<open>
  The inbound half of a TCP socket, as \<^verbatim>\<open>recv\<close> sees it: the chunks that are still to
  arrive, in order, however the network has cut them. After the last chunk the peer has
  closed the connection. \<^verbatim>\<open>recv(k)\<close> hands out at most \<open>k\<close> bytes of the next chunk and
  returns the empty byte string only at the end of the stream.
\<close>

type_synonym stream = "bytes list"

fun recv :: "stream \<Rightarrow> nat \<Rightarrow> bytes \<times> stream" where
  "recv [] k = ([], [])"
| "recv (c # cs) k =
     (if c = [] then recv cs k
      else if length c \<le> k then (c, cs)
      else (take k c, drop k c # cs))"

definition MAX_CHUNK_SIZE :: int where
  "MAX_CHUNK_SIZE = 4096"

text \<open>The \<^verbatim>\<open>while\<close> loop of \<^verbatim>\<open>recv_all\<close>, with \<open>data\<close> the bytes collected so far.\<close>

function recv_all_loop :: "stream \<Rightarrow> int \<Rightarrow> bytes \<Rightarrow> exn + bytes \<times> stream" where
  "recv_all_loop sock num_bytes data =
     (if int (length data) < num_bytes then
        (case recv sock (nat (min MAX_CHUNK_SIZE (num_bytes - int (length data)))) of
           (packet, sock') \<Rightarrow>
             if packet = [] then Inl ConnectionError
             else recv_all_loop sock' num_bytes (data @ packet))
      else Inr (data, sock))"
  by pat_completeness auto
termination
  by (relation "measure (\<lambda>(sock, num_bytes, data). nat (num_bytes - int (length data)))") auto

declare recv_all_loop.simps [simp del]

definition recv_all :: "stream \<Rightarrow> int \<Rightarrow> exn + bytes \<times> stream" where
  "recv_all sock num_bytes = recv_all_loop sock num_bytes []"

section \<open>Sockets, handlers and the operator's shared state\<close>

text \<open>
  A connected TCP socket: the inbound stream, the byte strings handed to the
  \<^verbatim>\<open>send\<close>/\<^verbatim>\<open>sendall\<close> calls that succeeded (in order), how many further sends the
  connection will accept before it breaks (\<open>None\<close>: it never breaks), and whether
  \<^verbatim>\<open>close\<close> has been called. A send that succeeds is taken to transmit its whole
  argument.
\<close>

record socket =
  inbox :: stream
  sent :: "bytes list"
  send_budget :: "nat option"
  closed :: bool

definition sock_send :: "socket \<Rightarrow> bytes \<Rightarrow> exn + socket" where
  "sock_send sk data =
     (if closed sk then Inl OtherError
      else case send_budget sk of
             None \<Rightarrow> Inr (sk\<lparr>sent := sent sk @ [data]\<rparr>)
           | Some 0 \<Rightarrow> Inl ConnectionError
           | Some (Suc k) \<Rightarrow> Inr (sk\<lparr>sent := sent sk @ [data], send_budget := Some k\<rparr>))"

definition sock_close :: "socket \<Rightarrow> socket" where
  "sock_close sk = sk\<lparr>closed := True\<rparr>"

text \<open>A peer's identity is the address pair \<open>(host, port)\<close> that \<^verbatim>\<open>accept\<close> returned.\<close>

type_synonym address = "string \<times> nat"

text \<open>The fields of a \<^verbatim>\<open>ClientHandler\<close> thread object. Its socket is a reference into the
  store of sockets, because the registry holds the same socket object.\<close>

record handler =
  h_client_socket :: nat
  h_client_address :: address
  h_aes_key :: bytes
  h_stop_event :: bool
  last_frame_time :: rat

text \<open>
  Calls handed to \<^verbatim>\<open>app.root.after(0, ...)\<close> for the GUI thread. The handler's lambda
  reads the immutable \<^verbatim>\<open>self.client_address\<close>; the lambdas of the command consumer read
  the local variables \<^verbatim>\<open>addr\<close> and \<^verbatim>\<open>client_address\<close> of its \<^verbatim>\<open>run\<close> method when the
  GUI thread eventually calls them, so the model records which variable they read.
\<close>

datatype gui_call = Cleanup address | Cleanup_addr_var | Kick_client_address_var

text \<open>The lines written by \<^verbatim>\<open>print\<close>.\<close>

datatype log_line =
    Log_command string
  | Log_send_failed address exn
  | Log_resize_failed address exn
  | Log_unexpected_error "address option" exn
  | Log_dropped_stale address
  | Log_handler_error address exn
  | Log_gui_closed address
  | Log_key_exchange_error exn
  | Log_accepted address
  | Log_pause_sent
  | Log_pause_failed address exn

text \<open>
  The parts of the GUI application object that the worker threads touch.
  \<open>tk_running\<close> says whether the Tk main loop accepts calls from other threads;
  when it does not, \<^verbatim>\<open>root.after\<close> raises \<^verbatim>\<open>RuntimeError\<close>. \<open>screen_updates\<close> lists
  the calls of \<^verbatim>\<open>update_screen\<close>, \<open>kicked_addresses\<close> is the kicked set.
\<close>

record app =
  shutdown_event :: bool
  tk_running :: bool
  fullscreen_widget :: bool
  fullscreen_address :: "address option"
  button_size :: "int \<times> int"
  kicked_addresses :: "address set"
  after_queue :: "gui_call list"
  screen_updates :: "(address \<times> bytes) list"

definition root_after :: "gui_call \<Rightarrow> app \<Rightarrow> exn + app" where
  "root_after cb a =
     (if tk_running a then Inr (a\<lparr>after_queue := after_queue a @ [cb]\<rparr>)
      else Inl RuntimeError)"

definition update_screen :: "address \<Rightarrow> bytes \<Rightarrow> app \<Rightarrow> app" where
  "update_screen addr frame a = a\<lparr>screen_updates := screen_updates a @ [(addr, frame)]\<rparr>"


text \<open>
  The operator process: the \<^verbatim>\<open>Server\<close> object with its key material, the registry
  \<^verbatim>\<open>client_sockets_and_threads\<close> (an insertion-ordered dictionary from address to a
  socket reference and a handler reference), the two stores of socket and handler
  objects, the two work queues, the entropy source, the wall clock, the application
  object and the console.
\<close>

record operator =
  srv_aes_key :: bytes
  srv_public_key :: bytes
  rsa_keys :: "(address \<times> bytes) list"
  clients_dict :: "(address \<times> nat \<times> nat) list"
  sockets :: "nat \<Rightarrow> socket"
  handlers :: "nat \<Rightarrow> handler"
  next_ref :: nat
  pause_event :: bool
  srv_stop_event :: bool
  command_queue :: "(address option \<times> string) list"
  frame_queue :: "(address \<times> bytes \<times> rat) list"
  entropy :: rng
  clock :: rat
  gui :: app
  stdout :: "log_line list"

definition print :: "log_line \<Rightarrow> operator \<Rightarrow> operator" where
  "print l s = s\<lparr>stdout := stdout s @ [l]\<rparr>"

definition sleep :: "rat \<Rightarrow> operator \<Rightarrow> operator" where
  "sleep d s = s\<lparr>clock := clock s + d\<rparr>"

definition FPS :: rat where
  "FPS = 10"

definition send_on :: "nat \<Rightarrow> bytes \<Rightarrow> operator \<Rightarrow> exn option \<times> operator" where
  "send_on ref data s =
     (case sock_send (sockets s ref) data of
        Inl e \<Rightarrow> (Some e, s)
      | Inr sk \<Rightarrow> (None, s\<lparr>sockets := (sockets s)(ref := sk)\<rparr>))"

text \<open>\<^verbatim>\<open>thread.stop()\<close> on a handler reference.\<close>

definition handler_stop :: "nat \<Rightarrow> operator \<Rightarrow> operator" where
  "handler_stop th s = s\<lparr>handlers := (handlers s)(th := (handlers s th)\<lparr>h_stop_event := True\<rparr>)\<rparr>"

section \<open>ServerThreads.py: the command consumer\<close>

text \<open>
  The four statements that every branch of \<^verbatim>\<open>CommandConsumer.run\<close> (and the pause sent to
  a new client by \<^verbatim>\<open>Server.run\<close>) puts in its \<^verbatim>\<open>try\<close> block: encrypt the command, then
  send the 4-byte length, the IV and the ciphertext, each with its own \<^verbatim>\<open>send\<close>. The
  result is the exception that left the block, if any, and the state reached.
\<close>

definition send_encrypted :: "block_cipher \<Rightarrow> bytes \<Rightarrow> string \<Rightarrow> nat \<Rightarrow> operator \<Rightarrow> exn option \<times> operator" where
  "send_encrypted C key cmd sock s =
     (case encrypt_aes C (entropy s) key (encode cmd) of
        (Inl e, r') \<Rightarrow> (Some e, s\<lparr>entropy := r'\<rparr>)
      | (Inr (iv, encrypted_cmd), r') \<Rightarrow>
          (case to_bytes_big (length encrypted_cmd) 4 of
             Inl e \<Rightarrow> (Some e, s\<lparr>entropy := r'\<rparr>)
           | Inr len \<Rightarrow>
               (case send_on sock len (s\<lparr>entropy := r'\<rparr>) of
                  (Some e, s1) \<Rightarrow> (Some e, s1)
                | (None, s1) \<Rightarrow>
                    (case send_on sock iv s1 of
                       (Some e, s2) \<Rightarrow> (Some e, s2)
                     | (None, s2) \<Rightarrow> send_on sock encrypted_cmd s2))))"

text \<open>The \<^verbatim>\<open>except\<close> block of the two broadcasting loops: log, stop the handler, delete the
  registry entry, schedule the cleanup. \<^verbatim>\<open>root.after\<close> is not guarded here, so its
  exception leaves the loop.\<close>

definition drop_peer :: "log_line \<Rightarrow> address \<Rightarrow> nat \<Rightarrow> gui_call \<Rightarrow> operator \<Rightarrow> exn option \<times> operator" where
  "drop_peer l addr thread cb s =
     (let s1 = handler_stop thread (print l s);
          s2 = s1\<lparr>clients_dict := AList.delete addr (clients_dict s1)\<rparr>
      in case root_after cb (gui s2) of
           Inl e \<Rightarrow> (Some e, s2)
         | Inr g \<Rightarrow> (None, s2\<lparr>gui := g\<rparr>))"

text \<open>The \<^verbatim>\<open>for\<close> loop of the pause/unpause branch over the snapshot
  \<^verbatim>\<open>list(self.clients_dict.items())\<close>.\<close>

fun pause_loop :: "block_cipher \<Rightarrow> address option \<Rightarrow> string \<Rightarrow> (address \<times> nat \<times> nat) list \<Rightarrow>
    operator \<Rightarrow> exn option \<times> operator" where
  "pause_loop C client_address cmd [] s = (None, s)"
| "pause_loop C client_address cmd ((addr, sock, thread) # items) s =
     (if Some addr \<noteq> client_address then
        (case send_encrypted C (h_aes_key (handlers s thread)) cmd sock s of
           (None, s1) \<Rightarrow> pause_loop C client_address cmd items s1
         | (Some e, s1) \<Rightarrow>
             (case drop_peer (Log_send_failed addr e) addr thread Cleanup_addr_var s1 of
                (None, s2) \<Rightarrow> pause_loop C client_address cmd items s2
              | (Some e', s2) \<Rightarrow> (Some e', s2)))
      else pause_loop C client_address cmd items s)"

text \<open>The \<^verbatim>\<open>for\<close> loop of the resize branch over its \<^verbatim>\<open>targets\<close>.\<close>

fun resize_loop :: "block_cipher \<Rightarrow> string \<Rightarrow> (address \<times> nat \<times> nat) list \<Rightarrow>
    operator \<Rightarrow> exn option \<times> operator" where
  "resize_loop C cmd [] s = (None, s)"
| "resize_loop C cmd ((addr, sock, thread) # targets) s =
     (case send_encrypted C (h_aes_key (handlers s thread)) cmd sock s of
        (None, s1) \<Rightarrow> resize_loop C cmd targets s1
      | (Some e, s1) \<Rightarrow>
          (case drop_peer (Log_resize_failed addr e) addr thread Cleanup_addr_var s1 of
             (None, s2) \<Rightarrow> resize_loop C cmd targets s2
           | (Some e', s2) \<Rightarrow> (Some e', s2)))"

text \<open>
  What \<^verbatim>\<open>CommandConsumer.run\<close> does with one dequeued entry \<open>(client_address, cmd)\<close>.
  The result carries the exception that escapes the loop body, if any (the body only
  catches \<^verbatim>\<open>queue.Empty\<close>).
\<close>

definition dispatch :: "block_cipher \<Rightarrow> address option \<times> string \<Rightarrow> operator \<Rightarrow> exn option \<times> operator" where
  "dispatch C entry s =
     (case entry of (client_address, cmd) \<Rightarrow>
        let s0 = print (Log_command cmd) s in
        if cmd = ''pause'' \<or> cmd = ''unpause'' then
          pause_loop C client_address cmd (clients_dict s0)
            (s0\<lparr>pause_event := (cmd = ''pause'')\<rparr>)
        else if prefix ''resize'' cmd then
          resize_loop C cmd
            (case client_address of
               None \<Rightarrow> clients_dict s0
             | Some a \<Rightarrow> (case map_of (clients_dict s0) a of
                            None \<Rightarrow> []
                          | Some st \<Rightarrow> [(a, st)]))
            s0
        else
          (case client_address of
             None \<Rightarrow> (None, s0)
           | Some a \<Rightarrow>
               (case map_of (clients_dict s0) a of
                  None \<Rightarrow> (None, s0)
                | Some (sock, thread) \<Rightarrow>
                    (case send_encrypted C (h_aes_key (handlers s0 thread)) cmd sock s0 of
                       (None, s1) \<Rightarrow>
                         if cmd = ''kick''
                         then (None, (handler_stop thread s1)
                                  \<lparr>clients_dict := AList.delete a (clients_dict s1)\<rparr>)
                         else (None, s1)
                     | (Some e, s1) \<Rightarrow>
                         drop_peer (Log_unexpected_error client_address e) a thread
                           Kick_client_address_var s1))))"


text \<open>For stating what a broadcast achieves: a socket accepts \<open>n\<close> further sends.\<close>

definition sends_ok :: "socket \<Rightarrow> nat \<Rightarrow> bool" where
  "sends_ok sk n \<longleftrightarrow> \<not> closed sk \<and> (case send_budget sk of None \<Rightarrow> True | Some k \<Rightarrow> n \<le> k)"

text \<open>A command record can be delivered to a registry entry: the handler's key has an AES
  size and the socket accepts the three sends of one record.\<close>

definition deliverable :: "operator \<Rightarrow> nat \<Rightarrow> nat \<Rightarrow> bool" where
  "deliverable s sock thread \<longleftrightarrow>
     aes_key_size_ok (h_aes_key (handlers s thread)) \<and> sends_ok (sockets s sock) 3"

text \<open>Between the states \<open>s\<close> and \<open>s'\<close> exactly one command record was sent on the socket:
  length, IV and a ciphertext that decrypts to the command under the given key.\<close>

definition received :: "block_cipher \<Rightarrow> bytes \<Rightarrow> string \<Rightarrow> socket \<Rightarrow> socket \<Rightarrow> bool" where
  "received C key cmd sk sk' \<longleftrightarrow>
     (\<exists>len iv ct. sent sk' = sent sk @ [len, iv, ct]
        \<and> to_bytes_big (length ct) 4 = Inr len
        \<and> decrypt_aes C key iv ct = Inr (encode cmd))"

section \<open>ServerThreads.py: the frame consumer\<close>

definition max_frame_age :: rat where
  "max_frame_age = 1 / 2"

text \<open>
  One pass of the \<^verbatim>\<open>while\<close> loop of \<^verbatim>\<open>FrameConsumer.run\<close>. \<^verbatim>\<open>time.time()\<close> reads the
  clock. Times are exact rationals in the model; the floating-point difference of two
  close timestamps is exact as well.
\<close>

definition frame_consumer_iteration :: "operator \<Rightarrow> operator" where
  "frame_consumer_iteration s =
     (case frame_queue s of
        [] \<Rightarrow> sleep 1 s
      | (client_address, frame, timestamp) # q \<Rightarrow>
          let s0 = s\<lparr>frame_queue := q\<rparr> in
          if clock s0 - timestamp \<le> max_frame_age then
            if \<not> fullscreen_widget (gui s0) \<or> fullscreen_address (gui s0) = Some client_address
            then s0\<lparr>gui := update_screen client_address frame (gui s0)\<rparr>
            else s0
          else print (Log_dropped_stale client_address) s0)"

section \<open>ServerThreads.py: the client handler\<close>

definition min_frame_interval :: rat where
  "min_frame_interval = 1 / FPS"

text \<open>\<^verbatim>\<open>recv_all\<close> on a socket of the store. When it raises, the stream has ended.\<close>

definition sock_recv_all :: "nat \<Rightarrow> int \<Rightarrow> operator \<Rightarrow> (exn + bytes) \<times> operator" where
  "sock_recv_all ref n s =
     (case recv_all (inbox (sockets s ref)) n of
        Inl e \<Rightarrow> (Inl e, s\<lparr>sockets := (sockets s)(ref := (sockets s ref)\<lparr>inbox := []\<rparr>)\<rparr>)
      | Inr (data, rest) \<Rightarrow>
          (Inr data, s\<lparr>sockets := (sockets s)(ref := (sockets s ref)\<lparr>inbox := rest\<rparr>)\<rparr>))"

text \<open>
  The body of the \<^verbatim>\<open>while\<close> loop of \<^verbatim>\<open>ClientHandler.run\<close> for the handler \<open>th\<close>; the
  result carries the exception that leaves the body, if any. \<^verbatim>\<open>zlib.decompress\<close> is a
  parameter.
\<close>

definition handler_iteration :: "block_cipher \<Rightarrow> (bytes \<Rightarrow> exn + bytes) \<Rightarrow> nat \<Rightarrow> operator \<Rightarrow>
    exn option \<times> operator" where
  "handler_iteration C decompress th s =
     (let h = handlers s th;
          sock = h_client_socket h;
          current_time = clock s;
          elapsed = current_time - last_frame_time h;
          s0 = (if elapsed < min_frame_interval then sleep (min_frame_interval - elapsed) s else s)
      in case sock_recv_all sock 8 s0 of
           (Inl e, s1) \<Rightarrow> (Some e, s1)
         | (Inr size_bytes, s1) \<Rightarrow>
             let image_size = from_bytes_big size_bytes in
             if image_size = 0 then (Some ConnectionError, s1)
             else
               (case sock_recv_all sock 16 s1 of
                  (Inl e, s2) \<Rightarrow> (Some e, s2)
                | (Inr iv, s2) \<Rightarrow>
                    (case sock_recv_all sock (int image_size) s2 of
                       (Inl e, s3) \<Rightarrow> (Some e, s3)
                     | (Inr encrypted_img, s3) \<Rightarrow>
                         (case decrypt_aes C (h_aes_key h) iv encrypted_img of
                            Inl e \<Rightarrow> (Some e, s3)
                          | Inr frame \<Rightarrow>
                              (case decompress frame of
                                 Inl e \<Rightarrow> (Some e, s3)
                               | Inr frame' \<Rightarrow>
                                   let timestamp = clock s3 in
                                   (None, s3\<lparr>frame_queue := frame_queue s3 @
                                                [(h_client_address h, frame', timestamp)],
                                             handlers := (handlers s3)
                                                (th := (handlers s3 th)\<lparr>last_frame_time := timestamp\<rparr>)\<rparr>))))))"

text \<open>The \<^verbatim>\<open>while not self.stop_event.is_set()\<close> loop. It runs for as long as the peer keeps
  sending frames, so it need not return.\<close>

partial_function (option) handler_loop :: "block_cipher \<Rightarrow> (bytes \<Rightarrow> exn + bytes) \<Rightarrow> nat \<Rightarrow> operator \<Rightarrow>
    (exn option \<times> operator) option" where
  "handler_loop C decompress th s =
     (if h_stop_event (handlers s th) then Some (None, s)
      else case handler_iteration C decompress th s of
             (Some e, s1) \<Rightarrow> Some (Some e, s1)
           | (None, s1) \<Rightarrow> handler_loop C decompress th s1)"

declare handler_loop.simps [code]

text \<open>The \<^verbatim>\<open>except\<close> and \<^verbatim>\<open>finally\<close> blocks of \<^verbatim>\<open>ClientHandler.run\<close>, given how the loop
  ended.\<close>

definition handler_finish :: "nat \<Rightarrow> exn option \<Rightarrow> operator \<Rightarrow> operator" where
  "handler_finish th r s =
     (let h = handlers s th;
          s2 = (case r of
                  None \<Rightarrow> s
                | Some e \<Rightarrow>
                    let s1 = print (Log_handler_error (h_client_address h) e) s in
                    if \<not> shutdown_event (gui s1) then
                      (case root_after (Cleanup (h_client_address h)) (gui s1) of
                         Inr g \<Rightarrow> s1\<lparr>gui := g\<rparr>
                       | Inl tk_err \<Rightarrow> print (Log_gui_closed (h_client_address h)) s1)
                    else s1)
      in s2\<lparr>sockets := (sockets s2)
              (h_client_socket h := sock_close (sockets s2 (h_client_socket h)))\<rparr>)"

definition handler_run :: "block_cipher \<Rightarrow> (bytes \<Rightarrow> exn + bytes) \<Rightarrow> nat \<Rightarrow> operator \<Rightarrow> operator option" where
  "handler_run C decompress th s =
     (case handler_loop C decompress th s of
        None \<Rightarrow> None
      | Some (r, s1) \<Rightarrow> Some (handler_finish th r s1))"


section \<open>ServerThreads.py: the server\<close>




text \<open>
  The RSA operations of the \<^verbatim>\<open>cryptography\<close> package are parameters: loading a PEM
  public key and OAEP encryption under a public key.
\<close>

record rsa =
  load_pem_public_key :: "bytes \<Rightarrow> exn + bytes"
  rsa_encrypt :: "bytes \<Rightarrow> bytes \<Rightarrow> exn + bytes"














section \<open>ClientThreads.py and FunctionsModule.py: the peer\<close>

text \<open>\<^verbatim>\<open>str.split(":")\<close> and \<^verbatim>\<open>int(str)\<close> (decimal digits with single underscores between
  them, an optional sign, surrounding ASCII white space).\<close>

fun split_colon :: "string \<Rightarrow> string list" where
  "split_colon [] = [[]]"
| "split_colon (c # cs) =
     (if c = CHR '':'' then [] # split_colon cs
      else case split_colon cs of
             w # ws \<Rightarrow> (c # w) # ws
           | [] \<Rightarrow> [[c]])"

definition is_space :: "char \<Rightarrow> bool" where
  "is_space c \<longleftrightarrow> c = CHR '' '' \<or> (9 \<le> (of_char c :: nat) \<and> (of_char c :: nat) \<le> 13)"

definition strip :: "string \<Rightarrow> string" where
  "strip s = rev (dropWhile is_space (rev (dropWhile is_space s)))"

definition is_digit :: "char \<Rightarrow> bool" where
  "is_digit c \<longleftrightarrow> 48 \<le> (of_char c :: nat) \<and> (of_char c :: nat) \<le> 57"

fun digits_ok :: "string \<Rightarrow> bool" where
  "digits_ok [] = False"
| "digits_ok [c] = is_digit c"
| "digits_ok (c # d # cs) =
     (is_digit c \<and> (if d = CHR ''_'' then digits_ok cs else digits_ok (d # cs)))"

definition digits_value :: "string \<Rightarrow> int" where
  "digits_value s =
     foldl (\<lambda>a c. 10 * a + (int (of_char c) - 48)) 0 (filter (\<lambda>c. c \<noteq> CHR ''_'') s)"

definition py_int :: "string \<Rightarrow> exn + int" where
  "py_int s =
     (case strip s of
        [] \<Rightarrow> Inl ValueError
      | c # cs \<Rightarrow>
          if c = CHR ''-'' then (if digits_ok cs then Inr (- digits_value cs) else Inl ValueError)
          else if c = CHR ''+'' then (if digits_ok cs then Inr (digits_value cs) else Inl ValueError)
          else if digits_ok (c # cs) then Inr (digits_value (c # cs))
          else Inl ValueError)"

text \<open>Python's \<^verbatim>\<open>xs[i]\<close> for a non-negative index.\<close>

definition index :: "'a list \<Rightarrow> nat \<Rightarrow> exn + 'a" where
  "index xs i = (if i < length xs then Inr (xs ! i) else Inl IndexError)"

text \<open>What the \<^verbatim>\<open>pynput\<close> controllers are asked to do, and the peer's console.\<close>

datatype input_action = Click string int int | Press string | Release string

datatype peer_log =
    Log_unknown_button string
  | Log_input_error string exn
  | Log_resizing int int
  | Log_updating_size "int \<times> int"
  | Log_invalid_resize string exn
  | Log_received_kick
  | Log_blocking bool
  | Log_paused bool
  | Log_client_error exn
  | Log_taking_screenshot
  | Log_screenshot_empty
  | Log_compression_failed
  | Log_encryption_failed
  | Log_frame_sent nat nat nat
  | Log_screen_share_error exn

text \<open>
  The peer process: the \<^verbatim>\<open>Client\<close> thread object, its \<^verbatim>\<open>UserBlocker\<close> (a listener field is
  true when a suppressing listener is installed), its \<^verbatim>\<open>ScreenShare\<close> thread object (which
  shares the socket and the pause event), the input actions injected so far, the
  arguments of the \<^verbatim>\<open>time.sleep\<close> calls of the publisher, the calls of the disconnect
  callback, the entropy source, the clock and the console.
\<close>

record peer =
  p_sock :: socket
  has_disconnect_callback :: bool
  disconnect_calls :: "string list"
  disconnected :: bool
  public_key :: bytes
  server_rsa_key :: "bytes option"
  server_aes_key :: "bytes option"
  p_pause_event :: bool
  has_screen_share :: bool
  ss_aes_key :: bytes
  ss_img_size :: "int \<times> int"
  ss_stop_event :: bool
  img_size :: "int \<times> int"
  block_event :: bool
  keyboard_listener :: bool
  mouse_listener :: bool
  p_stop_event :: bool
  injected :: "input_action list"
  sleeps :: "rat list"
  p_entropy :: rng
  p_clock :: rat
  p_stdout :: "peer_log list"

definition p_print :: "peer_log \<Rightarrow> peer \<Rightarrow> peer" where
  "p_print l p = p\<lparr>p_stdout := p_stdout p @ [l]\<rparr>"

text \<open>\<^verbatim>\<open>time.sleep(d)\<close> raises \<^verbatim>\<open>ValueError\<close> on a negative duration.\<close>

definition p_sleep :: "rat \<Rightarrow> peer \<Rightarrow> exn option \<times> peer" where
  "p_sleep d p =
     (if d < 0 then (Some ValueError, p)
      else (None, p\<lparr>p_clock := p_clock p + d, sleeps := sleeps p @ [d]\<rparr>))"

definition start_blocking :: "peer \<Rightarrow> peer" where
  "start_blocking p =
     (if \<not> keyboard_listener p \<or> \<not> mouse_listener p
      then p\<lparr>keyboard_listener := True, mouse_listener := True\<rparr>
      else p)"

definition stop_blocking :: "peer \<Rightarrow> peer" where
  "stop_blocking p = p\<lparr>keyboard_listener := False, mouse_listener := False\<rparr>"

definition MOUSE_BUTTONS :: "string list" where
  "MOUSE_BUTTONS = [''1'', ''2'', ''3'']"

text \<open>The statements of \<^verbatim>\<open>InputController.handle_command\<close> between lifting and restoring
  the suppression; whether \<^verbatim>\<open>pynput\<close> accepts a key name is left to it.\<close>

definition inject :: "string list \<Rightarrow> peer \<Rightarrow> exn option \<times> peer" where
  "inject sliced_command p =
     (case index sliced_command 0 of
        Inl e \<Rightarrow> (Some e, p)
      | Inr kind \<Rightarrow>
          if kind = ''button'' then
            (case index sliced_command 1 of
               Inl e \<Rightarrow> (Some e, p)
             | Inr button_num \<Rightarrow>
                 (case index sliced_command 2 of
                    Inl e \<Rightarrow> (Some e, p)
                  | Inr xs \<Rightarrow>
                      (case py_int xs of
                         Inl e \<Rightarrow> (Some e, p)
                       | Inr x \<Rightarrow>
                           (case index sliced_command 3 of
                              Inl e \<Rightarrow> (Some e, p)
                            | Inr ys \<Rightarrow>
                                (case py_int ys of
                                   Inl e \<Rightarrow> (Some e, p)
                                 | Inr y \<Rightarrow>
                                     if button_num \<in> set MOUSE_BUTTONS
                                     then (None, p\<lparr>injected := injected p @ [Click button_num x y]\<rparr>)
                                     else (None, p_print (Log_unknown_button button_num) p))))))
          else if kind = ''key_down'' then
            (case index sliced_command 1 of
               Inl e \<Rightarrow> (Some e, p)
             | Inr key \<Rightarrow> (None, p\<lparr>injected := injected p @ [Press key]\<rparr>))
          else if kind = ''key_up'' then
            (case index sliced_command 1 of
               Inl e \<Rightarrow> (Some e, p)
             | Inr key \<Rightarrow> (None, p\<lparr>injected := injected p @ [Release key]\<rparr>))
          else (None, p))"

definition handle_command :: "string \<Rightarrow> peer \<Rightarrow> peer" where
  "handle_command command p =
     (let was_blocking = block_event p;
          p1 = (if was_blocking then stop_blocking p else p)
      in case inject (split_colon command) p1 of
           (Some e, p2) \<Rightarrow> p_print (Log_input_error command e) p2
         | (None, p2) \<Rightarrow> if was_blocking then start_blocking p2 else p2)"

text \<open>The resize branch of the command loop, with its own \<^verbatim>\<open>except ValueError\<close>; any other
  exception leaves the branch.\<close>

definition resize :: "string \<Rightarrow> peer \<Rightarrow> exn option \<times> peer" where
  "resize command p =
     (case split_colon command of
        [u, width, height] \<Rightarrow>
          (case py_int width of
             Inl e \<Rightarrow> (None, p_print (Log_invalid_resize command e) p)
           | Inr w \<Rightarrow>
               (case py_int height of
                  Inl e \<Rightarrow> (None, p_print (Log_invalid_resize command e) p)
                | Inr h \<Rightarrow>
                    let p1 = (p_print (Log_resizing w h) p)\<lparr>img_size := (w, h)\<rparr>
                    in if has_screen_share p1
                       then (None, (p_print (Log_updating_size (w, h)) p1)\<lparr>ss_img_size := (w, h)\<rparr>)
                       else (None, p1)))
      | _ \<Rightarrow> (None, p_print (Log_invalid_resize command ValueError) p))"

text \<open>How one pass of the command loop ends: the loop goes on, or it is left by
  \<^verbatim>\<open>break\<close> with the current value of \<^verbatim>\<open>stop_reason\<close>.\<close>

datatype loop_ctl = Continue | Break string

definition block_pause :: "string \<Rightarrow> peer \<Rightarrow> peer" where
  "block_pause command p =
     (if command = ''block'' then
        p_print (Log_blocking True) (start_blocking (p\<lparr>block_event := True\<rparr>))
      else if command = ''unblock'' then
        p_print (Log_blocking False) (stop_blocking (p\<lparr>block_event := False\<rparr>))
      else if command = ''pause'' then p_print (Log_paused True) (p\<lparr>p_pause_event := True\<rparr>)
      else if command = ''unpause'' then p_print (Log_paused False) (p\<lparr>p_pause_event := False\<rparr>)
      else p)"

text \<open>The statements of the loop body after the command has been decrypted and decoded;
  an exception that leaves them is caught by the handlers of the loop body.\<close>

definition apply_command :: "string \<Rightarrow> peer \<Rightarrow> (exn + loop_ctl) \<times> peer" where
  "apply_command command p =
     (if prefix ''key_down'' command \<or> prefix ''key_up'' command \<or> prefix ''button'' command then
        (Inr Continue, block_pause command (handle_command command p))
      else if prefix ''resize'' command then
        (case resize command p of
           (Some e, p1) \<Rightarrow> (Inl e, p1)
         | (None, p1) \<Rightarrow> (Inr Continue, block_pause command p1))
      else if command = ''kick'' then
        (Inr (Break ''kicked from session''), p_print Log_received_kick p)
      else (Inr Continue, block_pause command p))"

text \<open>\<^verbatim>\<open>recv_all\<close> on the peer's socket.\<close>

definition p_recv_all :: "int \<Rightarrow> peer \<Rightarrow> (exn + bytes) \<times> peer" where
  "p_recv_all n p =
     (case recv_all (inbox (p_sock p)) n of
        Inl e \<Rightarrow> (Inl e, p\<lparr>p_sock := (p_sock p)\<lparr>inbox := []\<rparr>\<rparr>)
      | Inr (data, rest) \<Rightarrow> (Inr data, p\<lparr>p_sock := (p_sock p)\<lparr>inbox := rest\<rparr>\<rparr>))"

definition the_key :: "bytes option \<Rightarrow> bytes" where
  "the_key k = (case k of None \<Rightarrow> [] | Some key \<Rightarrow> key)"

text \<open>The \<^verbatim>\<open>try\<close> block of the loop body: read one command record, decrypt, decode, apply.
  A key that is \<^verbatim>\<open>None\<close> makes the cipher raise like a key of a wrong size.\<close>

definition read_command :: "block_cipher \<Rightarrow> peer \<Rightarrow> (exn + string) \<times> peer" where
  "read_command C p =
     (case p_recv_all 4 p of
        (Inl e, p1) \<Rightarrow> (Inl e, p1)
      | (Inr cmd_len_bytes, p1) \<Rightarrow>
          (case p_recv_all 16 p1 of
             (Inl e, p2) \<Rightarrow> (Inl e, p2)
           | (Inr iv, p2) \<Rightarrow>
               (case p_recv_all (int (from_bytes_big cmd_len_bytes)) p2 of
                  (Inl e, p3) \<Rightarrow> (Inl e, p3)
                | (Inr encrypted_cmd, p3) \<Rightarrow>
                    (case decrypt_aes C (the_key (server_aes_key p3)) iv encrypted_cmd of
                       Inl e \<Rightarrow> (Inl e, p3)
                     | Inr plain \<Rightarrow>
                         (case decode plain of
                            Inl e \<Rightarrow> (Inl e, p3)
                          | Inr command \<Rightarrow> (Inr command, p3))))))"

text \<open>One pass of the command loop with its two \<^verbatim>\<open>except\<close> clauses. The variable
  \<^verbatim>\<open>stop_reason\<close> is only assigned right before a \<^verbatim>\<open>break\<close>, so at an exception other
  than a connection error it still has its initial value.\<close>

definition client_iteration :: "block_cipher \<Rightarrow> peer \<Rightarrow> loop_ctl \<times> peer" where
  "client_iteration C p =
     (case read_command C p of
        (Inl e, p1) \<Rightarrow>
          (if e = ConnectionError then (Break ''session closed'', p_print (Log_client_error e) p1)
           else (Break ''client crashed'', p_print (Log_client_error e) p1))
      | (Inr command, p1) \<Rightarrow>
          (case apply_command command p1 of
             (Inl e, p2) \<Rightarrow>
               (if e = ConnectionError then (Break ''session closed'', p_print (Log_client_error e) p2)
                else (Break ''client crashed'', p_print (Log_client_error e) p2))
           | (Inr ctl, p2) \<Rightarrow> (ctl, p2)))"

text \<open>The \<^verbatim>\<open>while not self.stop_event.is_set()\<close> loop of \<^verbatim>\<open>Client.run\<close>; it runs for as long
  as the operator keeps sending commands, and returns the stop reason.\<close>

partial_function (option) client_loop :: "block_cipher \<Rightarrow> peer \<Rightarrow> (string \<times> peer) option" where
  "client_loop C p =
     (if p_stop_event p then Some (''client crashed'', p)
      else case client_iteration C p of
             (Break stop_reason, p1) \<Rightarrow> Some (stop_reason, p1)
           | (Continue, p1) \<Rightarrow> client_loop C p1)"

declare client_loop.simps [code]

text \<open>\<^verbatim>\<open>Client.stop\<close>; its body runs under the lock, one caller at a time.\<close>

definition client_stop :: "string \<Rightarrow> peer \<Rightarrow> peer" where
  "client_stop stop_reason p =
     (if disconnected p then p
      else
        let p1 = p\<lparr>disconnected := True, p_stop_event := True\<rparr>;
            p2 = (if has_screen_share p1 then p1\<lparr>ss_stop_event := True\<rparr> else p1);
            p3 = stop_blocking p2;
            p4 = p3\<lparr>p_sock := sock_close (p_sock p3)\<rparr>
        in if has_disconnect_callback p4
           then p4\<lparr>disconnect_calls := disconnect_calls p4 @ [stop_reason]\<rparr>
           else p4)"

text \<open>The peer's side of the key exchange; RSA decryption with the peer's private key is a
  parameter.\<close>

definition p_send :: "bytes \<Rightarrow> peer \<Rightarrow> exn option \<times> peer" where
  "p_send data p =
     (case sock_send (p_sock p) data of
        Inl e \<Rightarrow> (Some e, p)
      | Inr sk \<Rightarrow> (None, p\<lparr>p_sock := sk\<rparr>))"

text \<open>A length-prefixed field read from, and written to, the peer's socket.\<close>

definition p_receive_framed :: "peer \<Rightarrow> (exn + bytes) \<times> peer" where
  "p_receive_framed p =
     (case p_recv_all 4 p of
        (Inl e, p1) \<Rightarrow> (Inl e, p1)
      | (Inr len_bytes, p1) \<Rightarrow> p_recv_all (int (from_bytes_big len_bytes)) p1)"

definition p_send_framed :: "bytes \<Rightarrow> peer \<Rightarrow> exn option \<times> peer" where
  "p_send_framed data p =
     (case to_bytes_big (length data) 4 of
        Inl e \<Rightarrow> (Some e, p)
      | Inr len \<Rightarrow>
          (case p_send len p of
             (Some e, p1) \<Rightarrow> (Some e, p1)
           | (None, p1) \<Rightarrow> p_send data p1))"

definition client_key_exchange :: "rsa \<Rightarrow> (bytes \<Rightarrow> exn + bytes) \<Rightarrow> peer \<Rightarrow> exn option \<times> peer" where
  "client_key_exchange R rsa_decrypt p =
     (case p_send_framed (public_key p) p of
        (Some e, p2) \<Rightarrow> (Some e, p2)
      | (None, p2) \<Rightarrow>
          (case p_receive_framed p2 of
             (Inl e, p4) \<Rightarrow> (Some e, p4)
           | (Inr server_key_bytes, p4) \<Rightarrow>
               (case load_pem_public_key R server_key_bytes of
                  Inl e \<Rightarrow> (Some e, p4)
                | Inr server_key \<Rightarrow>
                    (case p_receive_framed (p4\<lparr>server_rsa_key := Some server_key\<rparr>) of
                       (Inl e, p6) \<Rightarrow> (Some e, p6)
                     | (Inr encrypted_aes_key, p6) \<Rightarrow>
                         (case rsa_decrypt encrypted_aes_key of
                            Inl e \<Rightarrow> (Some e, p6)
                          | Inr key \<Rightarrow> (None, p6\<lparr>server_aes_key := Some key\<rparr>))))))"

text \<open>
  \<^verbatim>\<open>Client.run\<close> once the socket is connected: key exchange, creation of the
  \<^verbatim>\<open>ScreenShare\<close> thread, the command loop, and \<^verbatim>\<open>stop\<close> in the \<^verbatim>\<open>finally\<close> clause.
  \<open>client_session\<close> is the part from the command loop on.
\<close>

definition client_session :: "block_cipher \<Rightarrow> peer \<Rightarrow> peer option" where
  "client_session C p =
     (case client_loop C p of
        None \<Rightarrow> None
      | Some (stop_reason, p1) \<Rightarrow> Some (client_stop stop_reason p1))"

definition client_run :: "block_cipher \<Rightarrow> rsa \<Rightarrow> (bytes \<Rightarrow> exn + bytes) \<Rightarrow> peer \<Rightarrow> peer option" where
  "client_run C R rsa_decrypt p =
     (case client_key_exchange R rsa_decrypt p of
        (Some e, p1) \<Rightarrow> Some (client_stop ''client crashed'' p1)
      | (None, p1) \<Rightarrow>
          client_session C
            (p1\<lparr>has_screen_share := True, ss_aes_key := the_key (server_aes_key p1),
                ss_img_size := (1920, 1080), ss_stop_event := False\<rparr>))"

section \<open>ClientThreads.py: the frame publisher\<close>

text \<open>The three \<^verbatim>\<open>sendall\<close> calls of a cycle: the 8-byte length, the IV, the ciphertext.\<close>

definition send_frame :: "bytes \<Rightarrow> bytes \<Rightarrow> peer \<Rightarrow> exn option \<times> peer" where
  "send_frame iv encrypted p =
     (case to_bytes_big (length encrypted) 8 of
        Inl e \<Rightarrow> (Some e, p)
      | Inr len \<Rightarrow>
          (case p_send len p of
             (Some e, p2) \<Rightarrow> (Some e, p2)
           | (None, p2) \<Rightarrow>
               (case p_send iv p2 of
                  (Some e, p3) \<Rightarrow> (Some e, p3)
                | (None, p3) \<Rightarrow> p_send encrypted p3)))"

text \<open>
  The \<^verbatim>\<open>try\<close> block of one cycle of \<^verbatim>\<open>ScreenShare.run\<close>. \<open>shot\<close> is what
  \<^verbatim>\<open>take_screenshot\<close> does in this cycle, \<open>cost\<close> the time that passes between the two
  readings of \<^verbatim>\<open>perf_counter\<close>; \<^verbatim>\<open>zlib.compress\<close> is a parameter. The result carries the
  exception that leaves the block, if any.
\<close>

definition screen_share_try :: "block_cipher \<Rightarrow> (bytes \<Rightarrow> exn + bytes) \<Rightarrow> exn + bytes \<Rightarrow> rat \<Rightarrow>
    peer \<Rightarrow> exn option \<times> peer" where
  "screen_share_try C compress shot cost p =
     (let p0 = p_print Log_taking_screenshot p;
          start = p_clock p0
      in case shot of
           Inl e \<Rightarrow> (Some e, p0)
         | Inr image_bytes \<Rightarrow>
             if image_bytes = [] then p_sleep (1 / 2) (p_print Log_screenshot_empty p0)
             else
               (case compress image_bytes of
                  Inl e \<Rightarrow> (Some e, p0)
                | Inr compressed_bytes \<Rightarrow>
                    if compressed_bytes = [] then p_sleep (1 / 2) (p_print Log_compression_failed p0)
                    else
                      (case encrypt_aes C (p_entropy p0) (ss_aes_key p0) compressed_bytes of
                         (Inl e, r') \<Rightarrow> (Some e, p0\<lparr>p_entropy := r'\<rparr>)
                       | (Inr (iv, encrypted), r') \<Rightarrow>
                           let p1 = p0\<lparr>p_entropy := r'\<rparr> in
                           if encrypted = [] then p_sleep (1 / 2) (p_print Log_encryption_failed p1)
                           else
                             (case send_frame iv encrypted p1 of
                                (Some e, p4) \<Rightarrow> (Some e, p4)
                              | (None, p4) \<Rightarrow>
                                  let p5 = (p_print (Log_frame_sent (length image_bytes)
                                              (length compressed_bytes) (length encrypted)) p4)
                                             \<lparr>p_clock := p_clock p4 + cost\<rparr>;
                                      elapsed = p_clock p5 - start
                                  in p_sleep (max 0 (1 / FPS - elapsed)) p5))))"

text \<open>One pass of the \<^verbatim>\<open>while\<close> loop: the pause test, the \<^verbatim>\<open>try\<close> block and the
  \<^verbatim>\<open>except Exception\<close> clause. The result carries an exception that would leave the loop.\<close>

definition screen_share_cycle :: "block_cipher \<Rightarrow> (bytes \<Rightarrow> exn + bytes) \<Rightarrow> exn + bytes \<Rightarrow> rat \<Rightarrow>
    peer \<Rightarrow> exn option \<times> peer" where
  "screen_share_cycle C compress shot cost p =
     (if p_pause_event p then p_sleep (1 / 2) p
      else case screen_share_try C compress shot cost p of
             (None, p1) \<Rightarrow> (None, p1)
           | (Some e, p1) \<Rightarrow> p_sleep 1 (p_print (Log_screen_share_error e) p1))"

text \<open>
  The loop of \<^verbatim>\<open>ScreenShare.run\<close>, observed for as many cycles as there are inputs. An
  input says whether another thread sets the stop event before the loop tests it, and
  gives the screenshot and the cost of the cycle. The loop is still running when the
  inputs end, has stopped, or was left by an exception.
\<close>

datatype outcome = Running peer | Stopped peer | Crashed exn peer

fun screen_share_run :: "block_cipher \<Rightarrow> (bytes \<Rightarrow> exn + bytes) \<Rightarrow> (bool \<times> (exn + bytes) \<times> rat) list \<Rightarrow>
    peer \<Rightarrow> outcome" where
  "screen_share_run C compress [] p = Running p"
| "screen_share_run C compress ((stop_now, shot, cost) # inputs) p =
     (let p0 = (if stop_now then p\<lparr>ss_stop_event := True\<rparr> else p)
      in if ss_stop_event p0 then Stopped p0
         else (case screen_share_cycle C compress shot cost p0 of
                 (Some e, p1) \<Rightarrow> Crashed e p1
               | (None, p1) \<Rightarrow> screen_share_run C compress inputs p1))"

section \<open>Concrete states for instantiating the theorems\<close>

definition peer_A :: address where "peer_A = (''10.0.0.1'', 50001)"
definition peer_B :: address where "peer_B = (''10.0.0.2'', 50002)"
definition peer_C :: address where "peer_C = (''10.0.0.3'', 50003)"

definition open_socket :: socket where
  "open_socket = \<lparr>inbox = [], sent = [], send_budget = None, closed = False\<rparr>"

definition demo_key :: bytes where
  "demo_key = [7, 7, 7, 7, 7, 7, 7, 7, 7, 7, 7, 7, 7, 7, 7, 7,
               7, 7, 7, 7, 7, 7, 7, 7, 7, 7, 7, 7, 7, 7, 7, 7]"

definition demo_handler :: "nat \<Rightarrow> address \<Rightarrow> handler" where
  "demo_handler sk a = \<lparr>h_client_socket = sk, h_client_address = a, h_aes_key = demo_key,
                         h_stop_event = False, last_frame_time = 0\<rparr>"

definition demo_app :: app where
  "demo_app = \<lparr>shutdown_event = False, tk_running = True, fullscreen_widget = False,
                fullscreen_address = None, button_size = (320, 180), kicked_addresses = {},
                after_queue = [], screen_updates = []\<rparr>"

text \<open>Three registered peers; the connection to \<open>peer_B\<close> breaks after one more send.\<close>

definition demo_operator :: operator where
  "demo_operator =
     \<lparr>srv_aes_key = demo_key, srv_public_key = [], rsa_keys = [],
      clients_dict = [(peer_A, 0, 10), (peer_B, 1, 11), (peer_C, 2, 12)],
      sockets = (\<lambda>i. if i = 1 then open_socket\<lparr>send_budget := Some 1\<rparr> else open_socket),
      handlers = (\<lambda>i. if i = 10 then demo_handler 0 peer_A
                       else if i = 11 then demo_handler 1 peer_B
                       else demo_handler 2 peer_C),
      next_ref = 13, pause_event = False, srv_stop_event = False, command_queue = [],
      frame_queue = [], entropy = (\<lambda>i. of_nat i), clock = 100, gui = demo_app, stdout = []\<rparr>"


text \<open>A peer whose next command record is \<^verbatim>\<open>kick\<close>, encrypted with \<open>xor_cipher\<close> under
  \<open>demo_key\<close> and the all-zero IV, arriving in two chunks.\<close>

definition kick_record :: "bytes list" where
  "kick_record =
     [[0, 0, 0, 16, 0, 0, 0, 0, 0, 0, 0, 0, 0, 0],
      [0, 0, 0, 0, 0, 0, 108, 110, 100, 108, 11, 11, 11, 11, 11, 11, 11, 11, 11, 11, 11, 11]]"

definition demo_peer :: peer where
  "demo_peer =
     \<lparr>p_sock = open_socket\<lparr>inbox := kick_record\<rparr>, has_disconnect_callback = True,
      disconnect_calls = [], disconnected = False, public_key = [], server_rsa_key = Some [],
      server_aes_key = Some demo_key, p_pause_event = False, has_screen_share = True,
      ss_aes_key = demo_key, ss_img_size = (1920, 1080), ss_stop_event = False,
      img_size = (1920, 1080), block_event = True, keyboard_listener = True,
      mouse_listener = True, p_stop_event = False, injected = [], sleeps = [],
      p_entropy = (\<lambda>i. of_nat i), p_clock = 0, p_stdout = []\<rparr>"

section \<open>Auxiliary notions for the statements\<close>

text \<open>Everything but the entropy source and one socket is left alone.\<close>

definition touches_only :: "nat \<Rightarrow> operator \<Rightarrow> operator \<Rightarrow> bool" where
  "touches_only sock s s' \<longleftrightarrow> (\<exists>r sk. s' = s\<lparr>entropy := r, sockets := (sockets s)(sock := sk)\<rparr>)"

text \<open>The entries of a snapshot that a broadcast excluding \<open>origin\<close> addresses, and
  those among some entries to which a record cannot be delivered.\<close>

definition targets :: "address option \<Rightarrow> (address \<times> nat \<times> nat) list \<Rightarrow> (address \<times> nat \<times> nat) list" where
  "targets origin items = filter (\<lambda>(a, sk, th). Some a \<noteq> origin) items"

definition failing :: "operator \<Rightarrow> (address \<times> nat \<times> nat) list \<Rightarrow> (address \<times> nat \<times> nat) list" where
  "failing s items = filter (\<lambda>(a, sk, th). \<not> deliverable s sk th) items"

text \<open>The state \<open>demo_operator\<close> after the Tk main loop has gone.\<close>

definition tk_gone_operator :: operator where
  "tk_gone_operator = demo_operator\<lparr>gui := demo_app\<lparr>tk_running := False\<rparr>\<rparr>"

text \<open>The socket of \<open>peer_C\<close> delivers a zero length field in two chunks.\<close>

definition zero_frame_operator :: operator where
  "zero_frame_operator =
     demo_operator\<lparr>sockets := (\<lambda>i. if i = 2 then open_socket\<lparr>inbox := [[0, 0, 0], [0, 0, 0, 0, 0, 9]]\<rparr>
                                   else open_socket)\<rparr>"

text \<open>The same connection when the Tk main loop has gone but the shutdown event is not set.\<close>

definition tk_gone_zero_frame_operator :: operator where
  "tk_gone_zero_frame_operator = zero_frame_operator\<lparr>gui := demo_app\<lparr>tk_running := False\<rparr>\<rparr>"

text \<open>A step keeps the keys when it leaves the server's key and every handler's key as they
  are and adds no registry entry.\<close>

definition keeps_keys :: "operator \<Rightarrow> operator \<Rightarrow> bool" where
  "keeps_keys s s' \<longleftrightarrow>
     srv_aes_key s' = srv_aes_key s
     \<and> (\<forall>th. h_aes_key (handlers s' th) = h_aes_key (handlers s th))
     \<and> set (clients_dict s') \<subseteq> set (clients_dict s)"


text \<open>A step touches nothing but the store of sockets.\<close>

definition only_sockets :: "operator \<Rightarrow> operator \<Rightarrow> bool" where
  "only_sockets s s' \<longleftrightarrow> s'\<lparr>sockets := sockets s\<rparr> = s"

text \<open>The result of a dispatcher step, with the server's key field overwritten.\<close>

definition set_key :: "bytes \<Rightarrow> exn option \<times> operator \<Rightarrow> exn option \<times> operator" where
  "set_key k res = (fst res, (snd res)\<lparr>srv_aes_key := k\<rparr>)"



section \<open>Properties of the encryption functions\<close>

lemma length_pkcs7_pad: "length (pkcs7_pad text) = 16 * (length text div 16 + 1)"
  unfolding pkcs7_pad_def Let_def by simp presburger

lemma xor_bytes_length: "length a = length b \<Longrightarrow> length (xor_bytes a b) = length a"
  by (simp add: xor_bytes_def)

lemma xor_bytes_cancel: "length a = length b \<Longrightarrow> xor_bytes (xor_bytes a b) b = a"
  unfolding xor_bytes_def
  by (induction a b rule: list_induct2) (auto simp: xor.assoc)

lemma whole_blocks_ge: "data \<noteq> [] \<Longrightarrow> length data mod 16 = 0 \<Longrightarrow> 16 \<le> length data"
  by (cases "length data < 16") auto

lemma whole_blocks_drop: "length data mod 16 = 0 \<Longrightarrow> length (drop 16 data) mod 16 = 0"
  by simp presburger

lemma length_cbc_encrypt:
  assumes E: "\<And>b. length b = 16 \<Longrightarrow> length (E b) = 16"
  shows "length prev = 16 \<Longrightarrow> length data mod 16 = 0 \<Longrightarrow> length (cbc_encrypt E prev data) = length data"
proof (induction "length data" arbitrary: prev data rule: less_induct)
  case less
  show ?case
  proof (cases "data = []")
    case True
    then show ?thesis by (simp add: cbc_encrypt.simps)
  next
    case False
    with less.prems have len: "16 \<le> length data"
      by (simp add: whole_blocks_ge)
    let ?c = "E (xor_bytes (take 16 data) prev)"
    have c: "length ?c = 16"
      using len less.prems by (simp add: E xor_bytes_length)
    have "length (cbc_encrypt E ?c (drop 16 data)) = length (drop 16 data)"
      using len less.prems c by (intro less.hyps) (auto simp: whole_blocks_drop)
    then show ?thesis
      using False len c by (subst cbc_encrypt.simps) (simp add: Let_def)
  qed
qed

lemma cbc_decrypt_encrypt:
  assumes E: "\<And>b. length b = 16 \<Longrightarrow> length (E b) = 16 \<and> D (E b) = b"
  shows "length prev = 16 \<Longrightarrow> length data mod 16 = 0 \<Longrightarrow>
         cbc_decrypt D prev (cbc_encrypt E prev data) = data"
proof (induction "length data" arbitrary: prev data rule: less_induct)
  case less
  show ?case
  proof (cases "data = []")
    case True
    then show ?thesis by (simp add: cbc_encrypt.simps cbc_decrypt.simps)
  next
    case False
    with less.prems have len: "16 \<le> length data"
      by (simp add: whole_blocks_ge)
    let ?x = "xor_bytes (take 16 data) prev"
    let ?c = "E ?x"
    have x: "length ?x = 16"
      using len less.prems by (simp add: xor_bytes_length)
    have c: "length ?c = 16" and inv: "D ?c = ?x"
      using E [OF x] by simp_all
    have IH: "cbc_decrypt D ?c (cbc_encrypt E ?c (drop 16 data)) = drop 16 data"
      using len less.prems c by (intro less.hyps) (auto simp: whole_blocks_drop)
    have enc: "cbc_encrypt E prev data = ?c @ cbc_encrypt E ?c (drop 16 data)"
      using False by (subst cbc_encrypt.simps) (simp add: Let_def)
    have first: "xor_bytes (D ?c) prev = take 16 data"
      using len less.prems by (simp add: inv xor_bytes_cancel)
    have "cbc_decrypt D prev (?c @ cbc_encrypt E ?c (drop 16 data))
          = xor_bytes (D ?c) prev @ cbc_decrypt D ?c (cbc_encrypt E ?c (drop 16 data))"
    proof -
      have "?c \<noteq> []" using c by auto
      then show ?thesis
        using c by (subst cbc_decrypt.simps) (simp add: Let_def)
    qed
    then show ?thesis
      by (simp add: enc IH first)
  qed
qed

lemma pkcs7_unpad_pad: "pkcs7_unpad (pkcs7_pad text) = Inr text"
proof -
  define n where "n = 16 - length text mod 16"
  have n: "0 < n" "n \<le> 16"
    by (simp_all add: n_def)
  have pad: "pkcs7_pad text = text @ replicate n (of_nat n)"
    by (simp add: pkcs7_pad_def n_def)
  have un: "unat (of_nat n :: byte) = n"
    using n by (simp add: unat_of_nat)
  have len: "length (pkcs7_pad text) mod 16 = 0"
    by (simp add: length_pkcs7_pad)
  have last: "last (pkcs7_pad text) = of_nat n"
    using n by (simp add: pad)
  show ?thesis
    unfolding pkcs7_unpad_def Let_def last un
    using n len by (simp add: pad)
qed

lemma os_urandom_length: "length (fst (os_urandom r n)) = n"
  by (simp add: os_urandom_def)

lemma xor_cipher_ok: "block_cipher_ok xor_cipher"
  unfolding block_cipher_ok_def xor_cipher_def aes_key_size_ok_def
  by (auto simp: xor_bytes_length xor_bytes_cancel)

lemma block_cipher_okD:
  assumes "block_cipher_ok C" "aes_key_size_ok key" "length b = 16"
  shows "length (encrypt_block C key b) = 16 \<and> decrypt_block C key (encrypt_block C key b) = b"
  using assms unfolding block_cipher_ok_def by blast

text \<open>
  Claim C1. For every 256-bit key and every plaintext, \<^verbatim>\<open>encrypt_aes\<close> returns a pair
  \<open>(iv, ciphertext)\<close>, and \<^verbatim>\<open>decrypt_aes\<close> applied to that key, IV and ciphertext
  returns exactly the plaintext. The block cipher is any pair of keyed block functions of
  which the second undoes the first, as AES and its inverse do.
\<close>

theorem decrypt_aes_inverts_encrypt_aes:
  assumes C: "block_cipher_ok C" and key: "length key = 32"
  shows "\<exists>iv ciphertext r'. encrypt_aes C r key plaintext = (Inr (iv, ciphertext), r')
           \<and> decrypt_aes C key iv ciphertext = Inr plaintext"
proof -
  obtain iv r' where u: "os_urandom r 16 = (iv, r')"
    by (cases "os_urandom r 16")
  have iv: "length iv = 16"
    using os_urandom_length [of r 16] u by simp
  have k: "aes_key_size_ok key"
    using key by (simp add: aes_key_size_ok_def)
  let ?E = "encrypt_block C key" and ?D = "decrypt_block C key"
  let ?ct = "cbc_encrypt ?E iv (pkcs7_pad plaintext)"
  have blk: "\<And>b. length b = 16 \<Longrightarrow> length (?E b) = 16 \<and> ?D (?E b) = b"
    using block_cipher_okD [OF C k] by blast
  have pad: "length (pkcs7_pad plaintext) mod 16 = 0"
    by (simp add: length_pkcs7_pad)
  have enc: "encrypt_aes C r key plaintext = (Inr (iv, ?ct), r')"
    using u k by (simp add: encrypt_aes_def)
  have len: "length ?ct mod 16 = 0"
    using length_cbc_encrypt [of ?E iv "pkcs7_pad plaintext"] blk iv pad by simp
  have "cbc_decrypt ?D iv ?ct = pkcs7_pad plaintext"
    using blk iv pad by (rule cbc_decrypt_encrypt)
  then have "decrypt_aes C key iv ?ct = Inr plaintext"
    using k iv len by (simp add: decrypt_aes_def pkcs7_unpad_pad)
  with enc show ?thesis by blast
qed

theorem decrypt_aes_inverts_encrypt_aes_witness:
  "block_cipher_ok xor_cipher \<and> length (replicate 32 (7::byte)) = 32
   \<and> (\<exists>iv ciphertext r'.
         encrypt_aes xor_cipher (\<lambda>i. of_nat i) (replicate 32 7) [104, 105] = (Inr (iv, ciphertext), r')
         \<and> decrypt_aes xor_cipher (replicate 32 7) iv ciphertext = Inr [104, 105])"
  using decrypt_aes_inverts_encrypt_aes [of xor_cipher "replicate 32 7" "\<lambda>i. of_nat i" "[104, 105]"]
        xor_cipher_ok
  by simp

text \<open>
  Claim C10. For every AES key and every plaintext of \<open>L\<close> bytes, \<^verbatim>\<open>encrypt_aes\<close>
  returns an IV of exactly 16 bytes and a ciphertext of exactly \<open>16 * (L div 16 + 1)\<close>
  bytes: a non-empty whole number of blocks, strictly longer than the plaintext, also
  for the empty plaintext.
\<close>

theorem encrypt_aes_lengths:
  assumes C: "block_cipher_ok C" and k: "aes_key_size_ok key"
  shows "\<exists>iv ciphertext r'. encrypt_aes C r key text = (Inr (iv, ciphertext), r')
           \<and> length iv = 16
           \<and> length ciphertext = 16 * (length text div 16 + 1)
           \<and> ciphertext \<noteq> []
           \<and> length ciphertext mod 16 = 0
           \<and> length text < length ciphertext"
proof -
  obtain iv r' where u: "os_urandom r 16 = (iv, r')"
    by (cases "os_urandom r 16")
  have iv: "length iv = 16"
    using os_urandom_length [of r 16] u by simp
  let ?E = "encrypt_block C key"
  let ?ct = "cbc_encrypt ?E iv (pkcs7_pad text)"
  have blk: "\<And>b. length b = 16 \<Longrightarrow> length (?E b) = 16"
    using block_cipher_okD [OF C k] by blast
  have pad: "length (pkcs7_pad text) mod 16 = 0"
    by (simp add: length_pkcs7_pad)
  have enc: "encrypt_aes C r key text = (Inr (iv, ?ct), r')"
    using u k by (simp add: encrypt_aes_def)
  have len: "length ?ct = 16 * (length text div 16 + 1)"
    using length_cbc_encrypt [of ?E iv "pkcs7_pad text"] blk iv pad
    by (simp add: length_pkcs7_pad)
  have ne: "?ct \<noteq> []"
    using len by auto
  have lt: "length text < 16 * (length text div 16 + 1)"
    by presburger
  show ?thesis
    using enc iv len ne lt by (intro exI [of _ iv] exI [of _ ?ct] exI [of _ r']) simp
qed

theorem encrypt_aes_lengths_witness:
  "block_cipher_ok xor_cipher \<and> aes_key_size_ok (replicate 32 (7::byte))
   \<and> (\<exists>iv ciphertext r'.
         encrypt_aes xor_cipher (\<lambda>i. of_nat i) (replicate 32 7) [] = (Inr (iv, ciphertext), r')
         \<and> length iv = 16 \<and> length ciphertext = 16 \<and> ciphertext \<noteq> [])"
  using encrypt_aes_lengths [of xor_cipher "replicate 32 7" "\<lambda>i. of_nat i" "[]"]
        xor_cipher_ok
  by (simp add: aes_key_size_ok_def) blast

section \<open>Properties of sending a command record\<close>

lemma length_encode: "length (encode cmd) = length cmd"
  by (simp add: encode_def)

lemma sock_send_ok:
  assumes "sends_ok sk (Suc n)"
  shows "\<exists>sk'. sock_send sk d = Inr sk' \<and> sent sk' = sent sk @ [d] \<and> sends_ok sk' n"
  using assms
  by (cases "send_budget sk") (auto simp: sends_ok_def sock_send_def split: nat.splits)

lemma sock_send_Inr:
  assumes "sock_send sk d = Inr sk'"
  shows "sent sk' = sent sk @ [d] \<and> \<not> closed sk' \<and> \<not> closed sk
         \<and> (\<forall>n. sends_ok sk (Suc n) \<longleftrightarrow> sends_ok sk' n)"
  using assms
  by (cases "send_budget sk") (auto simp: sends_ok_def sock_send_def split: nat.splits if_splits)

lemma sock_send_Inl:
  assumes "sock_send sk d = Inl e"
  shows "\<not> sends_ok sk (Suc n)"
  using assms
  by (cases "send_budget sk") (auto simp: sends_ok_def sock_send_def split: nat.splits if_splits)

lemma send_on_cases:
  "(\<exists>sk'. sock_send (sockets s ref) d = Inr sk' \<and> send_on ref d s = (None, s\<lparr>sockets := (sockets s)(ref := sk')\<rparr>))
   \<or> (\<exists>e. sock_send (sockets s ref) d = Inl e \<and> send_on ref d s = (Some e, s))"
  by (cases "sock_send (sockets s ref) d") (auto simp: send_on_def)

lemma encrypt_aes_spec:
  assumes C: "block_cipher_ok C" and k: "aes_key_size_ok key"
  shows "\<exists>iv ct. encrypt_aes C r key text = (Inr (iv, ct), snd (os_urandom r 16))
           \<and> length iv = 16
           \<and> length ct = 16 * (length text div 16 + 1)
           \<and> decrypt_aes C key iv ct = Inr text"
proof -
  obtain iv r' where u: "os_urandom r 16 = (iv, r')"
    by (cases "os_urandom r 16")
  have iv: "length iv = 16"
    using os_urandom_length [of r 16] u by simp
  let ?E = "encrypt_block C key" and ?D = "decrypt_block C key"
  let ?ct = "cbc_encrypt ?E iv (pkcs7_pad text)"
  have blk: "\<And>b. length b = 16 \<Longrightarrow> length (?E b) = 16 \<and> ?D (?E b) = b"
    using block_cipher_okD [OF C k] by blast
  have pad: "length (pkcs7_pad text) mod 16 = 0"
    by (simp add: length_pkcs7_pad)
  have enc: "encrypt_aes C r key text = (Inr (iv, ?ct), r')"
    using u k by (simp add: encrypt_aes_def)
  have len: "length ?ct = 16 * (length text div 16 + 1)"
    using length_cbc_encrypt [of ?E iv "pkcs7_pad text"] blk iv pad
    by (simp add: length_pkcs7_pad)
  have "cbc_decrypt ?D iv ?ct = pkcs7_pad text"
    using blk iv pad by (rule cbc_decrypt_encrypt)
  then have "decrypt_aes C key iv ?ct = Inr text"
    using k iv len by (simp add: decrypt_aes_def pkcs7_unpad_pad)
  with enc iv len u show ?thesis by simp
qed

lemma encrypt_aes_bad_key:
  "\<not> aes_key_size_ok key \<Longrightarrow> encrypt_aes C r key text = (Inl ValueError, snd (os_urandom r 16))"
  by (simp add: encrypt_aes_def split: prod.splits)

lemma to_bytes_big_fits: "n < 256 ^ w \<Longrightarrow> \<exists>len. to_bytes_big n w = Inr len"
  by (simp add: to_bytes_big_def)

lemma touches_only_refl: "touches_only sock s s"
  unfolding touches_only_def
  by (rule exI [of _ "entropy s"], rule exI [of _ "sockets s sock"]) simp

lemma touches_only_entropy: "touches_only sock s (s\<lparr>entropy := r\<rparr>)"
  unfolding touches_only_def
  by (rule exI [of _ r], rule exI [of _ "sockets s sock"]) simp

lemma send_on_touches:
  assumes "touches_only sock s s1" "send_on sock d s1 = (r, s2)"
  shows "touches_only sock s s2"
proof -
  from assms(1) obtain r0 sk0 where s1: "s1 = s\<lparr>entropy := r0, sockets := (sockets s)(sock := sk0)\<rparr>"
    unfolding touches_only_def by blast
  show ?thesis
    using send_on_cases [of s1 sock d] assms(2)
    unfolding touches_only_def
    by (auto simp: s1 intro!: exI [of _ r0])
qed

lemma send_on_None:
  assumes "send_on ref d s = (None, s1)"
  shows "\<exists>sk'. sock_send (sockets s ref) d = Inr sk' \<and> s1 = s\<lparr>sockets := (sockets s)(ref := sk')\<rparr>"
  using assms send_on_cases [of s ref d] by auto

lemma send_on_Some:
  assumes "send_on ref d s = (Some e, s1)"
  shows "sock_send (sockets s ref) d = Inl e \<and> s1 = s"
  using assms send_on_cases [of s ref d] by auto

lemma send_encrypted_touches:
  assumes "send_encrypted C key cmd sock s = (r, s')"
  shows "touches_only sock s s'"
proof (cases "encrypt_aes C (entropy s) key (encode cmd)")
  case (Pair res r')
  show ?thesis
  proof (cases res)
    case (Inl e)
    with Pair assms show ?thesis
      by (auto simp: send_encrypted_def touches_only_entropy)
  next
    case (Inr p)
    obtain iv ct where p: "p = (iv, ct)" by (cases p)
    let ?s0 = "s\<lparr>entropy := r'\<rparr>"
    have t0: "touches_only sock s ?s0" by (rule touches_only_entropy)
    show ?thesis
    proof (cases "to_bytes_big (length ct) 4")
      case (Inl e)
      with Pair Inr p assms show ?thesis
        by (auto simp: send_encrypted_def touches_only_entropy)
    next
      case len: (Inr len)
      obtain r1 s1 where a: "send_on sock len ?s0 = (r1, s1)" by (cases "send_on sock len ?s0")
      have t1: "touches_only sock s s1" using t0 a by (rule send_on_touches)
      obtain r2 s2 where b: "send_on sock iv s1 = (r2, s2)" by (cases "send_on sock iv s1")
      have t2: "touches_only sock s s2" using t1 b by (rule send_on_touches)
      obtain r3 s3 where c: "send_on sock ct s2 = (r3, s3)" by (cases "send_on sock ct s2")
      have t3: "touches_only sock s s3" using t2 c by (rule send_on_touches)
      show ?thesis
        using assms Pair Inr p len a b c t1 t2 t3
        by (cases r1; cases r2) (auto simp: send_encrypted_def)
    qed
  qed
qed

lemma send_encrypted_delivers:
  assumes C: "block_cipher_ok C" and fits: "16 * (length cmd div 16 + 1) < (256::nat) ^ 4"
      and k: "aes_key_size_ok key" and ok: "sends_ok (sockets s sock) 3"
  shows "\<exists>s1. send_encrypted C key cmd sock s = (None, s1)
            \<and> received C key cmd (sockets s sock) (sockets s1 sock)"
proof -
  obtain iv ct where enc: "encrypt_aes C (entropy s) key (encode cmd) = (Inr (iv, ct), snd (os_urandom (entropy s) 16))"
      and ctl: "length ct = 16 * (length cmd div 16 + 1)"
      and dec: "decrypt_aes C key iv ct = Inr (encode cmd)"
    using encrypt_aes_spec [OF C k, of "entropy s" "encode cmd"] by (auto simp: length_encode)
  obtain len where len: "to_bytes_big (length ct) 4 = Inr len"
    using to_bytes_big_fits [of "length ct" 4] fits ctl by auto
  let ?s0 = "s\<lparr>entropy := snd (os_urandom (entropy s) 16)\<rparr>"
  let ?sk = "sockets s sock"
  have ok3: "sends_ok ?sk (Suc 2)" using ok by (simp add: numeral_3_eq_3)
  obtain sk1 where a: "sock_send ?sk len = Inr sk1" and a1: "sent sk1 = sent ?sk @ [len]" and a2: "sends_ok sk1 2"
    using sock_send_ok [OF ok3] by blast
  have a2': "sends_ok sk1 (Suc 1)" using a2 by (simp add: numeral_2_eq_2)
  obtain sk2 where b: "sock_send sk1 iv = Inr sk2" and b1: "sent sk2 = sent sk1 @ [iv]" and b2: "sends_ok sk2 1"
    using sock_send_ok [OF a2'] by blast
  have b2': "sends_ok sk2 (Suc 0)" using b2 by simp
  obtain sk3 where c: "sock_send sk2 ct = Inr sk3" and c1: "sent sk3 = sent sk2 @ [ct]"
    using sock_send_ok [OF b2'] by blast
  have "send_encrypted C key cmd sock s = (None, ?s0\<lparr>sockets := (sockets s)(sock := sk3)\<rparr>)"
    using enc len a b c by (simp add: send_encrypted_def send_on_def)
  moreover have "received C key cmd ?sk sk3"
    unfolding received_def using a1 b1 c1 len dec by auto
  ultimately show ?thesis by auto
qed

lemma send_encrypted_None:
  assumes "send_encrypted C key cmd sock s = (None, s1)"
  shows "aes_key_size_ok key \<and> sends_ok (sockets s sock) 3"
proof -
  have k: "aes_key_size_ok key"
  proof (rule ccontr)
    assume "\<not> aes_key_size_ok key"
    from encrypt_aes_bad_key [OF this] assms show False
      by (simp add: send_encrypted_def)
  qed
  obtain res r' where e: "encrypt_aes C (entropy s) key (encode cmd) = (res, r')"
    by (cases "encrypt_aes C (entropy s) key (encode cmd)")
  from assms e obtain iv ct where res: "res = Inr (iv, ct)"
    by (cases res) (auto simp: send_encrypted_def)
  from assms e res obtain len where len: "to_bytes_big (length ct) 4 = Inr len"
    by (cases "to_bytes_big (length ct) 4") (auto simp: send_encrypted_def)
  let ?s0 = "s\<lparr>entropy := r'\<rparr>"
  obtain r1 s1' where a: "send_on sock len ?s0 = (r1, s1')" by (cases "send_on sock len ?s0")
  with assms e res len have r1: "r1 = None" by (cases r1) (auto simp: send_encrypted_def)
  obtain r2 s2 where b: "send_on sock iv s1' = (r2, s2)" by (cases "send_on sock iv s1'")
  with assms e res len a r1 have r2: "r2 = None" by (cases r2) (auto simp: send_encrypted_def)
  have c: "send_on sock ct s2 = (None, s1)"
    using assms e res len a r1 b r2 by (simp add: send_encrypted_def)
  from send_on_None [OF a [unfolded r1]] obtain sk1 where
    A: "sock_send (sockets s sock) len = Inr sk1" and s1': "s1' = ?s0\<lparr>sockets := (sockets ?s0)(sock := sk1)\<rparr>"
    by auto
  from send_on_None [OF b [unfolded r2]] obtain sk2 where
    B: "sock_send sk1 iv = Inr sk2" and s2: "s2 = s1'\<lparr>sockets := (sockets s1')(sock := sk2)\<rparr>"
    by (auto simp: s1')
  from send_on_None [OF c] obtain sk3 where
    Cc: "sock_send sk2 ct = Inr sk3"
    by (auto simp: s2)
  have "sends_ok sk2 (Suc 0) \<longleftrightarrow> sends_ok sk3 0" using sock_send_Inr [OF Cc] by blast
  moreover have "sends_ok sk3 0" using sock_send_Inr [OF Cc] by (auto simp: sends_ok_def split: option.splits)
  ultimately have "sends_ok sk2 (Suc 0)" by simp
  then have "sends_ok sk1 (Suc (Suc 0))" using sock_send_Inr [OF B] by blast
  then have "sends_ok (sockets s sock) (Suc (Suc (Suc 0)))" using sock_send_Inr [OF A] by blast
  then show ?thesis using k by (simp add: numeral_3_eq_3)
qed

section \<open>Properties of the exact-length read\<close>

lemma recv_concat: "recv sock k = (p, sock') \<Longrightarrow> p @ concat sock' = concat sock"
  by (induction sock k rule: recv.induct) (auto split: if_splits)

lemma recv_length: "recv sock k = (p, sock') \<Longrightarrow> length p \<le> k"
  by (induction sock k rule: recv.induct) (auto split: if_splits)

lemma recv_empty: "recv sock k = (p, sock') \<Longrightarrow> 0 < k \<Longrightarrow> p = [] \<longleftrightarrow> concat sock = []"
  by (induction sock k rule: recv.induct) (auto split: if_splits)

lemma recv_all_loop_short:
  "int (length data) + int (length (concat sock)) < n \<Longrightarrow> recv_all_loop sock n data = Inl ConnectionError"
proof (induction sock n data rule: recv_all_loop.induct)
  case (1 sock n data)
  obtain p sock' where r: "recv sock (nat (min MAX_CHUNK_SIZE (n - int (length data)))) = (p, sock')"
    by (cases "recv sock (nat (min MAX_CHUNK_SIZE (n - int (length data))))")
  from "1.prems" have lt: "int (length data) < n" by simp
  have cc: "p @ concat sock' = concat sock" using r by (rule recv_concat)
  show ?case
  proof (cases "p = []")
    case True
    then show ?thesis using lt r by (subst recv_all_loop.simps) simp
  next
    case False
    have "length (concat sock) = length p + length (concat sock')"
      using cc by (metis length_append)
    with "1.prems" have "int (length (data @ p)) + int (length (concat sock')) < n" by simp
    then have "recv_all_loop sock' n (data @ p) = Inl ConnectionError"
      using "1.IH" [OF lt r [symmetric] False] by simp
    then show ?thesis using lt r False by (subst recv_all_loop.simps) simp
  qed
qed

lemma recv_all_loop_enough:
  "n \<le> int (length data) + int (length (concat sock)) \<Longrightarrow>
   \<exists>rest. recv_all_loop sock n data = Inr (data @ take (nat n - length data) (concat sock), rest)
        \<and> concat rest = drop (nat n - length data) (concat sock)"
proof (induction sock n data rule: recv_all_loop.induct)
  case (1 sock n data)
  show ?case
  proof (cases "int (length data) < n")
    case False
    then have "nat n - length data = 0" by simp
    then show ?thesis using False by (subst recv_all_loop.simps) simp
  next
    case lt: True
    let ?k = "nat (min MAX_CHUNK_SIZE (n - int (length data)))"
    obtain p sock' where r: "recv sock ?k = (p, sock')"
      by (cases "recv sock ?k")
    have kpos: "0 < ?k" using lt by (simp add: MAX_CHUNK_SIZE_def)
    have kle: "?k \<le> nat n - length data" by simp
    have cc: "p @ concat sock' = concat sock" using r by (rule recv_concat)
    have pl: "length p \<le> ?k" using r by (rule recv_length)
    from "1.prems" lt have "0 < length (concat sock)" by linarith
    then have "concat sock \<noteq> []" by (metis length_greater_0_conv)
    then have ne: "p \<noteq> []" using recv_empty [OF r kpos] by simp
    have len: "length (concat sock) = length p + length (concat sock')"
      using cc by (metis length_append)
    with "1.prems" have "n \<le> int (length (data @ p)) + int (length (concat sock'))" by simp
    from "1.IH" [OF lt r [symmetric] ne this]
    obtain rest where IH: "recv_all_loop sock' n (data @ p) =
        Inr ((data @ p) @ take (nat n - length (data @ p)) (concat sock'), rest)"
      and rest: "concat rest = drop (nat n - length (data @ p)) (concat sock')" by blast
    have ple: "length p \<le> nat n - length data" using pl kle by linarith
    have t: "take (nat n - length data) (concat sock) = p @ take (nat n - length (data @ p)) (concat sock')"
      using ple by (simp add: cc [symmetric] diff_diff_eq)
    have d: "drop (nat n - length data) (concat sock) = drop (nat n - length (data @ p)) (concat sock')"
      using ple by (simp add: cc [symmetric] diff_diff_eq)
    have "recv_all_loop sock n data = recv_all_loop sock' n (data @ p)"
      using lt r ne by (subst recv_all_loop.simps) simp
    then show ?thesis using IH rest t d by simp
  qed
qed

text \<open>
  Claim C2. When the stream still delivers at least \<open>n\<close> bytes, cut into chunks in any
  way, \<^verbatim>\<open>recv_all\<close> returns exactly the first \<open>n\<close> of them and leaves the rest in the
  stream; when the stream ends after fewer than \<open>n\<close> bytes, it raises
  \<^verbatim>\<open>ConnectionError\<close>.
\<close>

theorem recv_all_exact_or_connection_error:
  fixes n :: int
  assumes "0 \<le> n"
  shows "(n \<le> int (length (concat sock)) \<longrightarrow>
            (\<exists>data rest. recv_all sock n = Inr (data, rest) \<and> int (length data) = n
                \<and> data = take (nat n) (concat sock) \<and> concat rest = drop (nat n) (concat sock)))
       \<and> (int (length (concat sock)) < n \<longrightarrow> recv_all sock n = Inl ConnectionError)"
proof (intro conjI impI)
  assume le: "n \<le> int (length (concat sock))"
  then obtain rest where "recv_all sock n = Inr (take (nat n) (concat sock), rest)"
      and "concat rest = drop (nat n) (concat sock)"
    using recv_all_loop_enough [of n "[]" sock] by (auto simp: recv_all_def)
  moreover have "int (length (take (nat n) (concat sock))) = n"
    using le assms by simp
  ultimately show "\<exists>data rest. recv_all sock n = Inr (data, rest) \<and> int (length data) = n
                \<and> data = take (nat n) (concat sock) \<and> concat rest = drop (nat n) (concat sock)"
    by blast
next
  assume "int (length (concat sock)) < n"
  then show "recv_all sock n = Inl ConnectionError"
    using recv_all_loop_short [of "[]" sock n] by (simp add: recv_all_def)
qed

theorem recv_all_exact_or_connection_error_witness:
  "(0::int) \<le> 5
   \<and> recv_all [[1, 2], [], [3], [4, 5, 6]] 5 = Inr ([1, 2, 3, 4, 5], [[6]])
   \<and> recv_all [[1, 2], [3]] 5 = Inl ConnectionError"
  using recv_all_exact_or_connection_error [of 5 "[[1, 2], [], [3], [4, 5, 6]]"]
        recv_all_exact_or_connection_error [of 5 "[[1, 2], [3]]"]
  by (simp add: recv_all_def recv_all_loop.simps MAX_CHUNK_SIZE_def)

section \<open>The broadcast of pause and unpause\<close>

lemma touches_onlyD:
  assumes "touches_only sock s s'"
  shows "clients_dict s' = clients_dict s" "handlers s' = handlers s" "gui s' = gui s"
        "pause_event s' = pause_event s" "stdout s' = stdout s" "srv_aes_key s' = srv_aes_key s"
        "ref \<noteq> sock \<Longrightarrow> sockets s' ref = sockets s ref"
        "command_queue s' = command_queue s" "frame_queue s' = frame_queue s" "clock s' = clock s"
  using assms unfolding touches_only_def by auto

lemma drop_peer_running:
  assumes "tk_running (gui s)"
  shows "drop_peer l addr thread cb s =
     (None, s\<lparr>stdout := stdout s @ [l],
              handlers := (handlers s)(thread := (handlers s thread)\<lparr>h_stop_event := True\<rparr>),
              clients_dict := AList.delete addr (clients_dict s),
              gui := (gui s)\<lparr>after_queue := after_queue (gui s) @ [cb]\<rparr>\<rparr>)"
  using assms by (simp add: drop_peer_def handler_stop_def print_def root_after_def Let_def)

lemma pause_loop_spec:
  assumes C: "block_cipher_ok C" and fits: "16 * (length cmd div 16 + 1) < (256::nat) ^ 4"
  shows "tk_running (gui s) \<Longrightarrow> distinct (map fst items) \<Longrightarrow> distinct (map (\<lambda>e. fst (snd e)) items)
    \<Longrightarrow> distinct (map (\<lambda>e. snd (snd e)) items) \<Longrightarrow>
    \<exists>s'. pause_loop C origin cmd items s = (None, s')
      \<and> tk_running (gui s') \<and> pause_event s' = pause_event s
      \<and> (\<forall>ref. ref \<notin> (\<lambda>e. fst (snd e)) ` set (targets origin items) \<longrightarrow> sockets s' ref = sockets s ref)
      \<and> (\<forall>th. th \<notin> (\<lambda>e. snd (snd e)) ` set (failing s (targets origin items)) \<longrightarrow> handlers s' th = handlers s th)
      \<and> (\<forall>th. h_aes_key (handlers s' th) = h_aes_key (handlers s th))
      \<and> clients_dict s' = filter (\<lambda>p. fst p \<notin> fst ` set (failing s (targets origin items))) (clients_dict s)
      \<and> (\<forall>(a, sk, th) \<in> set (targets origin items).
            if deliverable s sk th
            then received C (h_aes_key (handlers s th)) cmd (sockets s sk) (sockets s' sk)
            else h_stop_event (handlers s' th))"
proof (induction items arbitrary: s)
  case Nil
  then show ?case by (simp add: targets_def failing_def)
next
  case (Cons x items)
  obtain a sk th where x: "x = (a, sk, th)" by (cases x)
  from Cons.prems x have d1: "distinct (map fst items)" and d2: "distinct (map (\<lambda>e. fst (snd e)) items)"
    and d3: "distinct (map (\<lambda>e. snd (snd e)) items)"
    and na: "a \<notin> fst ` set items" and nsk: "sk \<notin> (\<lambda>e. fst (snd e)) ` set items"
    and nth: "th \<notin> (\<lambda>e. snd (snd e)) ` set items"
    by auto
  have sub: "set (targets origin items) \<subseteq> set items" by (auto simp: targets_def)
  show ?case
  proof (cases "Some a = origin")
    case True
    have eq: "pause_loop C origin cmd (x # items) s = pause_loop C origin cmd items s"
      using True x by simp
    have t: "targets origin (x # items) = targets origin items"
      using True x by (simp add: targets_def)
    show ?thesis
      unfolding eq t using Cons.IH [OF Cons.prems(1) d1 d2 d3] .
  next
    case False
    then have t: "targets origin (x # items) = x # targets origin items"
      using x by (simp add: targets_def)
    let ?key = "h_aes_key (handlers s th)"
    obtain r s1 where se: "send_encrypted C ?key cmd sk s = (r, s1)"
      by (cases "send_encrypted C ?key cmd sk s")
    have to: "touches_only sk s s1" using se by (rule send_encrypted_touches)
    note s1 = touches_onlyD [OF to]
    show ?thesis
    proof (cases "deliverable s sk th")
      case True
      then obtain s1' where "send_encrypted C ?key cmd sk s = (None, s1')"
        and rc: "received C ?key cmd (sockets s sk) (sockets s1' sk)"
        using send_encrypted_delivers [OF C fits, of ?key s sk] by (auto simp: deliverable_def)
      with se have r: "r = None" and [simp]: "s1' = s1" by auto
      have eq: "pause_loop C origin cmd (x # items) s = pause_loop C origin cmd items s1"
        using False x se r by simp
      have tk1: "tk_running (gui s1)" using Cons.prems(1) s1 by simp
      have del: "\<And>sk' th'. sk' \<noteq> sk \<Longrightarrow> deliverable s1 sk' th' = deliverable s sk' th'"
        using s1 by (simp add: deliverable_def)
      have fl: "failing s1 (targets origin items) = failing s (targets origin items)"
        unfolding failing_def using nsk sub del
        by (intro filter_cong refl) force
      have fx: "failing s (x # targets origin items) = failing s (targets origin items)"
        using True x by (simp add: failing_def)
      from Cons.IH [OF tk1 d1 d2 d3, of ] obtain s' where
        L: "pause_loop C origin cmd items s1 = (None, s')" and
        P1: "tk_running (gui s')" "pause_event s' = pause_event s1" and
        P2: "\<forall>ref. ref \<notin> (\<lambda>e. fst (snd e)) ` set (targets origin items) \<longrightarrow> sockets s' ref = sockets s1 ref" and
        P3: "\<forall>th. th \<notin> (\<lambda>e. snd (snd e)) ` set (failing s1 (targets origin items)) \<longrightarrow> handlers s' th = handlers s1 th" and
        P4: "\<forall>th. h_aes_key (handlers s' th) = h_aes_key (handlers s1 th)" and
        P5: "clients_dict s' = filter (\<lambda>p. fst p \<notin> fst ` set (failing s1 (targets origin items))) (clients_dict s1)" and
        P6: "\<forall>(a, sk, th) \<in> set (targets origin items).
            if deliverable s1 sk th
            then received C (h_aes_key (handlers s1 th)) cmd (sockets s1 sk) (sockets s' sk)
            else h_stop_event (handlers s' th)"
        by blast
      have sk_same: "sockets s' sk = sockets s1 sk"
        using P2 nsk sub by force
      have Q2: "\<forall>ref. ref \<notin> (\<lambda>e. fst (snd e)) ` set (targets origin (x # items)) \<longrightarrow> sockets s' ref = sockets s ref"
        unfolding t using P2 s1(7) by (auto simp: x)
      have Q6: "\<forall>(a', sk', th') \<in> set (targets origin (x # items)).
            if deliverable s sk' th'
            then received C (h_aes_key (handlers s th')) cmd (sockets s sk') (sockets s' sk')
            else h_stop_event (handlers s' th')"
      proof (clarify)
        fix a' sk' th' assume m: "(a', sk', th') \<in> set (targets origin (x # items))"
        show "if deliverable s sk' th'
            then received C (h_aes_key (handlers s th')) cmd (sockets s sk') (sockets s' sk')
            else h_stop_event (handlers s' th')"
        proof (cases "(a', sk', th') = x")
          case True
          then show ?thesis using \<open>deliverable s sk th\<close> rc sk_same x by simp
        next
          case False
          with m t have m': "(a', sk', th') \<in> set (targets origin items)" by simp
          then have ne: "sk' \<noteq> sk" using nsk sub by force
          show ?thesis using P6 m' del [OF ne] s1(2) s1(7) [OF ne] by force
        qed
      qed
      show ?thesis
        unfolding eq
        using L P1 P3 P4 P5 Q2 Q6 s1 by (simp add: fl t fx)
    next
      case nd: False
      have r: "r \<noteq> None"
      proof
        assume "r = None"
        with se send_encrypted_None [of C ?key cmd sk s s1] nd show False
          by (simp add: deliverable_def)
      qed
      then obtain e where r: "r = Some e" by (cases r) auto
      have tk1: "tk_running (gui s1)" using Cons.prems(1) s1 by simp
      let ?s2 = "s1\<lparr>stdout := stdout s1 @ [Log_send_failed a e],
              handlers := (handlers s1)(th := (handlers s1 th)\<lparr>h_stop_event := True\<rparr>),
              clients_dict := AList.delete a (clients_dict s1),
              gui := (gui s1)\<lparr>after_queue := after_queue (gui s1) @ [Cleanup_addr_var]\<rparr>\<rparr>"
      have eq: "pause_loop C origin cmd (x # items) s = pause_loop C origin cmd items ?s2"
        using False x se r drop_peer_running [OF tk1] by simp
      have tk2: "tk_running (gui ?s2)" using tk1 by simp
      have del: "\<And>sk' th'. sk' \<noteq> sk \<Longrightarrow> deliverable ?s2 sk' th' = deliverable s sk' th'"
        using s1 by (simp add: deliverable_def)
      have fl: "failing ?s2 (targets origin items) = failing s (targets origin items)"
        unfolding failing_def using nsk sub del
        by (intro filter_cong refl) force
      have fx: "failing s (x # targets origin items) = x # failing s (targets origin items)"
        using nd x by (simp add: failing_def)
      from Cons.IH [OF tk2 d1 d2 d3] obtain s' where
        L: "pause_loop C origin cmd items ?s2 = (None, s')" and
        P1: "tk_running (gui s')" "pause_event s' = pause_event ?s2" and
        P2: "\<forall>ref. ref \<notin> (\<lambda>e. fst (snd e)) ` set (targets origin items) \<longrightarrow> sockets s' ref = sockets ?s2 ref" and
        P3: "\<forall>th. th \<notin> (\<lambda>e. snd (snd e)) ` set (failing ?s2 (targets origin items)) \<longrightarrow> handlers s' th = handlers ?s2 th" and
        P4: "\<forall>th. h_aes_key (handlers s' th) = h_aes_key (handlers ?s2 th)" and
        P5: "clients_dict s' = filter (\<lambda>p. fst p \<notin> fst ` set (failing ?s2 (targets origin items))) (clients_dict ?s2)" and
        P6: "\<forall>(a, sk, th) \<in> set (targets origin items).
            if deliverable ?s2 sk th
            then received C (h_aes_key (handlers ?s2 th)) cmd (sockets ?s2 sk) (sockets s' sk)
            else h_stop_event (handlers s' th)"
        by blast
      have subf: "set (failing s (targets origin items)) \<subseteq> set items"
        using sub by (auto simp: failing_def)
      have th_same: "handlers s' th = handlers ?s2 th"
        using P3 nth subf unfolding fl by force
      have Q2: "\<forall>ref. ref \<notin> (\<lambda>e. fst (snd e)) ` set (targets origin (x # items)) \<longrightarrow> sockets s' ref = sockets s ref"
        unfolding t using P2 s1(7) by (auto simp: x)
      have Q3: "\<forall>th'. th' \<notin> (\<lambda>e. snd (snd e)) ` set (failing s (targets origin (x # items))) \<longrightarrow> handlers s' th' = handlers s th'"
        using P3 s1(2) unfolding fl t fx by (auto simp: x)
      have Q4: "\<forall>th. h_aes_key (handlers s' th) = h_aes_key (handlers s th)"
        using P4 s1(2) by simp
      have Q5: "clients_dict s' = filter (\<lambda>p. fst p \<notin> fst ` set (failing s (targets origin (x # items)))) (clients_dict s)"
        unfolding P5 fl t fx using s1(1) by (auto simp: x AList.delete_eq intro: filter_cong)
      have Q6: "\<forall>(a', sk', th') \<in> set (targets origin (x # items)).
            if deliverable s sk' th'
            then received C (h_aes_key (handlers s th')) cmd (sockets s sk') (sockets s' sk')
            else h_stop_event (handlers s' th')"
      proof (clarify)
        fix a' sk' th' assume m: "(a', sk', th') \<in> set (targets origin (x # items))"
        show "if deliverable s sk' th'
            then received C (h_aes_key (handlers s th')) cmd (sockets s sk') (sockets s' sk')
            else h_stop_event (handlers s' th')"
        proof (cases "(a', sk', th') = x")
          case True
          then show ?thesis using nd th_same x by simp
        next
          case False
          with m t have m': "(a', sk', th') \<in> set (targets origin items)" by simp
          then have ne: "sk' \<noteq> sk" using nsk sub by force
          from m' have ne2: "th' \<noteq> th" using nth sub by force
          show ?thesis using P6 m' del [OF ne] s1(2) s1(7) [OF ne] ne2 by force
        qed
      qed
      show ?thesis
        unfolding eq
        using L P1 Q2 Q3 Q4 Q5 Q6 s1 by simp
    qed
  qed
qed

lemma map_of_filter_fst:
  "map_of (filter (\<lambda>p. P (fst p)) xs) a = (if P a then map_of xs a else None)"
  by (induction xs) auto

lemma distinct_map_eqD:
  "distinct (map f xs) \<Longrightarrow> x \<in> set xs \<Longrightarrow> y \<in> set xs \<Longrightarrow> f x = f y \<Longrightarrow> x = y"
  by (auto simp: distinct_map dest: inj_onD)

lemma deliverable_cong:
  "handlers s' = handlers s \<Longrightarrow> sockets s' = sockets s \<Longrightarrow> deliverable s' = deliverable s"
  by (auto simp: deliverable_def fun_eq_iff)

text \<open>
  While the Tk main loop is running, dispatching \<^verbatim>\<open>pause\<close> (\<^verbatim>\<open>unpause\<close>) sets (clears) the
  shared pause flag and sends the command to exactly the registered peers other than the
  originating identity: the originator's socket is untouched, as is every socket outside
  the registry. A peer whose connection accepts the record receives it, encrypted under
  its handler's key, and stays registered; a peer to which the send fails has its
  handler stopped and its entry removed, and this changes nothing for the peers after
  it. The registry is a dictionary of distinct socket and handler objects.
\<close>

lemma pause_broadcast_while_tk_runs:
  assumes C: "block_cipher_ok C"
      and cmd: "cmd = ''pause'' \<or> cmd = ''unpause''"
      and tk: "tk_running (gui s)"
      and d1: "distinct (map fst (clients_dict s))"
      and d2: "distinct (map (\<lambda>e. fst (snd e)) (clients_dict s))"
      and d3: "distinct (map (\<lambda>e. snd (snd e)) (clients_dict s))"
  shows "\<exists>s'. dispatch C (origin, cmd) s = (None, s')
     \<and> pause_event s' = (cmd = ''pause'')
     \<and> (\<forall>(addr, sock, thread) \<in> set (clients_dict s).
          if Some addr = origin then
            sockets s' sock = sockets s sock \<and> handlers s' thread = handlers s thread
            \<and> map_of (clients_dict s') addr = Some (sock, thread)
          else if deliverable s sock thread then
            received C (h_aes_key (handlers s thread)) cmd (sockets s sock) (sockets s' sock)
            \<and> handlers s' thread = handlers s thread
            \<and> map_of (clients_dict s') addr = Some (sock, thread)
          else
            h_stop_event (handlers s' thread) \<and> map_of (clients_dict s') addr = None)
     \<and> (\<forall>ref. ref \<notin> (\<lambda>e. fst (snd e)) ` set (clients_dict s) \<longrightarrow> sockets s' ref = sockets s ref)"
proof -
  let ?s0 = "(print (Log_command cmd) s)\<lparr>pause_event := (cmd = ''pause'')\<rparr>"
  let ?items = "clients_dict s"
  let ?T = "targets origin ?items"
  let ?F = "failing s ?T"
  have fits: "16 * (length cmd div 16 + 1) < (256::nat) ^ 4"
    using cmd by auto
  have s0: "clients_dict ?s0 = ?items" "handlers ?s0 = handlers s" "sockets ?s0 = sockets s"
    "tk_running (gui ?s0)" "pause_event ?s0 = (cmd = ''pause'')"
    using tk by (simp_all add: print_def)
  have dl: "deliverable ?s0 = deliverable s"
    by (rule deliverable_cong) (simp_all add: s0)
  have fl: "failing ?s0 ?T = ?F"
    by (simp add: failing_def dl)
  have disp: "dispatch C (origin, cmd) s = pause_loop C origin cmd ?items ?s0"
    using cmd by (auto simp: dispatch_def Let_def print_def)
  from pause_loop_spec [OF C fits s0(4) d1 d2 d3, of origin]
  obtain s' where
    L: "pause_loop C origin cmd ?items ?s0 = (None, s')" and
    P1: "pause_event s' = pause_event ?s0" and
    P2: "\<forall>ref. ref \<notin> (\<lambda>e. fst (snd e)) ` set ?T \<longrightarrow> sockets s' ref = sockets s ref" and
    P3: "\<forall>th. th \<notin> (\<lambda>e. snd (snd e)) ` set ?F \<longrightarrow> handlers s' th = handlers s th" and
    P5: "clients_dict s' = filter (\<lambda>p. fst p \<notin> fst ` set ?F) ?items" and
    P6: "\<forall>(a, sk, th) \<in> set ?T.
            if deliverable s sk th
            then received C (h_aes_key (handlers s th)) cmd (sockets s sk) (sockets s' sk)
            else h_stop_event (handlers s' th)"
    unfolding fl dl s0(1) s0(2) s0(3) by blast
  have T: "\<And>e. e \<in> set ?T \<longleftrightarrow> e \<in> set ?items \<and> Some (fst e) \<noteq> origin"
    by (auto simp: targets_def)
  have F: "\<And>e. e \<in> set ?F \<longleftrightarrow> e \<in> set ?T \<and> \<not> deliverable s (fst (snd e)) (snd (snd e))"
    by (auto simp: failing_def)
  have entries: "\<forall>(addr, sock, thread) \<in> set ?items.
          if Some addr = origin then
            sockets s' sock = sockets s sock \<and> handlers s' thread = handlers s thread
            \<and> map_of (clients_dict s') addr = Some (sock, thread)
          else if deliverable s sock thread then
            received C (h_aes_key (handlers s thread)) cmd (sockets s sock) (sockets s' sock)
            \<and> handlers s' thread = handlers s thread
            \<and> map_of (clients_dict s') addr = Some (sock, thread)
          else
            h_stop_event (handlers s' thread) \<and> map_of (clients_dict s') addr = None"
  proof (clarify)
    fix addr sock thread assume m: "(addr, sock, thread) \<in> set ?items"
    have look: "map_of ?items addr = Some (sock, thread)"
      using d1 m by (rule map_of_is_SomeI)
    have keep: "addr \<notin> fst ` set ?F \<Longrightarrow> map_of (clients_dict s') addr = Some (sock, thread)"
      unfolding P5 using map_of_filter_fst [of "\<lambda>a. a \<notin> fst ` set ?F" ?items addr] by (simp add: look)
    have gone: "addr \<in> fst ` set ?F \<Longrightarrow> map_of (clients_dict s') addr = None"
      unfolding P5 using map_of_filter_fst [of "\<lambda>a. a \<notin> fst ` set ?F" ?items addr] by simp
    have same_addr: "\<And>e. e \<in> set ?items \<Longrightarrow> fst e = addr \<Longrightarrow> e = (addr, sock, thread)"
      using distinct_map_eqD [OF d1 _ m] by auto
    have same_sock: "\<And>e. e \<in> set ?items \<Longrightarrow> fst (snd e) = sock \<Longrightarrow> e = (addr, sock, thread)"
      using distinct_map_eqD [OF d2 _ m] by auto
    have same_thread: "\<And>e. e \<in> set ?items \<Longrightarrow> snd (snd e) = thread \<Longrightarrow> e = (addr, sock, thread)"
      using distinct_map_eqD [OF d3 _ m] by auto
    show "if Some addr = origin then
            sockets s' sock = sockets s sock \<and> handlers s' thread = handlers s thread
            \<and> map_of (clients_dict s') addr = Some (sock, thread)
          else if deliverable s sock thread then
            received C (h_aes_key (handlers s thread)) cmd (sockets s sock) (sockets s' sock)
            \<and> handlers s' thread = handlers s thread
            \<and> map_of (clients_dict s') addr = Some (sock, thread)
          else
            h_stop_event (handlers s' thread) \<and> map_of (clients_dict s') addr = None"
    proof (cases "Some addr = origin")
      case True
      have "sock \<notin> (\<lambda>e. fst (snd e)) ` set ?T"
        using same_sock True T by fastforce
      then have a: "sockets s' sock = sockets s sock" using P2 by blast
      have "thread \<notin> (\<lambda>e. snd (snd e)) ` set ?F"
        using same_thread True T F by fastforce
      then have b: "handlers s' thread = handlers s thread" using P3 by blast
      have "addr \<notin> fst ` set ?F"
        using same_addr True T F by fastforce
      then show ?thesis using True a b keep by simp
    next
      case False
      then have inT: "(addr, sock, thread) \<in> set ?T" using m T by simp
      show ?thesis
      proof (cases "deliverable s sock thread")
        case True
        have a: "received C (h_aes_key (handlers s thread)) cmd (sockets s sock) (sockets s' sock)"
          using P6 inT True by auto
        have "thread \<notin> (\<lambda>e. snd (snd e)) ` set ?F"
          using same_thread True T F by fastforce
        then have b: "handlers s' thread = handlers s thread" using P3 by blast
        have "addr \<notin> fst ` set ?F"
          using same_addr True T F by fastforce
        then show ?thesis using False True a b keep by simp
      next
        case nd: False
        have a: "h_stop_event (handlers s' thread)"
          using P6 inT nd by auto
        have "(addr, sock, thread) \<in> set ?F" using inT nd F by simp
        then have "addr \<in> fst ` set ?F" by force
        then show ?thesis using False nd a gone by simp
      qed
    qed
  qed
  have others: "\<forall>ref. ref \<notin> (\<lambda>e. fst (snd e)) ` set ?items \<longrightarrow> sockets s' ref = sockets s ref"
  proof (intro allI impI)
    fix ref assume "ref \<notin> (\<lambda>e. fst (snd e)) ` set ?items"
    moreover have "set ?T \<subseteq> set ?items" by (auto simp: targets_def)
    ultimately have "ref \<notin> (\<lambda>e. fst (snd e)) ` set ?T" by blast
    then show "sockets s' ref = sockets s ref" using P2 by blast
  qed
  show ?thesis
    unfolding disp using L P1 s0(5) entries others by blast
qed

lemma pause_broadcast_while_tk_runs_example:
  "block_cipher_ok xor_cipher \<and> tk_running (gui demo_operator)
   \<and> distinct (map fst (clients_dict demo_operator))
   \<and> distinct (map (\<lambda>e. fst (snd e)) (clients_dict demo_operator))
   \<and> distinct (map (\<lambda>e. snd (snd e)) (clients_dict demo_operator))
   \<and> (\<exists>s'. dispatch xor_cipher (Some peer_A, ''pause'') demo_operator = (None, s')
         \<and> pause_event s'
         \<and> sockets s' 0 = sockets demo_operator 0
         \<and> map_of (clients_dict s') peer_A = Some (0, 10)
         \<and> h_stop_event (handlers s' 11)
         \<and> map_of (clients_dict s') peer_B = None
         \<and> received xor_cipher demo_key ''pause'' (sockets demo_operator 2) (sockets s' 2)
         \<and> map_of (clients_dict s') peer_C = Some (2, 12))"
proof -
  have d1: "distinct (map fst (clients_dict demo_operator))"
    by (simp add: demo_operator_def peer_A_def peer_B_def peer_C_def)
  have d2: "distinct (map (\<lambda>e. fst (snd e)) (clients_dict demo_operator))"
    by (simp add: demo_operator_def)
  have d3: "distinct (map (\<lambda>e. snd (snd e)) (clients_dict demo_operator))"
    by (simp add: demo_operator_def)
  have tk: "tk_running (gui demo_operator)"
    by (simp add: demo_operator_def demo_app_def)
  have A: "deliverable demo_operator 2 12" and B: "\<not> deliverable demo_operator 1 11"
    by (simp_all add: deliverable_def demo_operator_def demo_handler_def demo_key_def
          aes_key_size_ok_def sends_ok_def open_socket_def)
  have k: "h_aes_key (handlers demo_operator 12) = demo_key"
    by (simp add: demo_operator_def demo_handler_def)
  have reg: "clients_dict demo_operator = [(peer_A, 0, 10), (peer_B, 1, 11), (peer_C, 2, 12)]"
    by (simp add: demo_operator_def)
  have ne: "peer_B \<noteq> peer_A" "peer_C \<noteq> peer_A"
    by (simp_all add: peer_A_def peer_B_def peer_C_def)
  from pause_broadcast_while_tk_runs [OF xor_cipher_ok _ tk d1 d2 d3, of "''pause''" "Some peer_A"]
  show ?thesis
    using xor_cipher_ok tk d1 d2 d3 A B k ne unfolding reg by simp blast
qed

lemma drop_peer_tk_gone:
  assumes "\<not> tk_running (gui s)"
  shows "drop_peer l addr thread cb s =
     (Some RuntimeError,
      s\<lparr>stdout := stdout s @ [l],
        handlers := (handlers s)(thread := (handlers s thread)\<lparr>h_stop_event := True\<rparr>),
        clients_dict := AList.delete addr (clients_dict s)\<rparr>)"
  using assms by (simp add: drop_peer_def handler_stop_def print_def root_after_def Let_def)

lemma pause_loop_aborts:
  assumes a: "Some a \<noteq> origin" and nd: "\<not> deliverable s sk th" and tk: "\<not> tk_running (gui s)"
  shows "\<exists>s'. pause_loop C origin cmd ((a, sk, th) # items) s = (Some RuntimeError, s')
           \<and> (\<forall>ref. ref \<noteq> sk \<longrightarrow> sockets s' ref = sockets s ref)"
proof -
  let ?key = "h_aes_key (handlers s th)"
  obtain r s1 where se: "send_encrypted C ?key cmd sk s = (r, s1)"
    by (cases "send_encrypted C ?key cmd sk s")
  have "touches_only sk s s1" using se by (rule send_encrypted_touches)
  note s1 = touches_onlyD [OF this]
  have "r \<noteq> None"
  proof
    assume "r = None"
    with se send_encrypted_None [of C ?key cmd sk s s1] nd show False
      by (simp add: deliverable_def)
  qed
  then obtain e where r: "r = Some e" by (cases r) auto
  have tk1: "\<not> tk_running (gui s1)" using tk s1 by simp
  show ?thesis
    using a se r drop_peer_tk_gone [OF tk1] s1(7) by simp
qed

text \<open>
  Claim C3. The broadcast of \<^verbatim>\<open>pause\<close> is meant to go on to the remaining peers when
  the send to one peer fails. The \<^verbatim>\<open>except\<close> block of the loop calls \<^verbatim>\<open>root.after\<close>
  without a guard, though: when the Tk main loop has gone, the \<^verbatim>\<open>RuntimeError\<close> leaves
  the loop and \<^verbatim>\<open>run\<close>. With \<open>peer_A\<close> the originator and the connection to \<open>peer_B\<close>
  broken, \<open>peer_C\<close> is registered and its connection would accept the record, yet nothing
  is sent to it.
\<close>

theorem pause_broadcast_aborts_when_tk_is_gone:
  "fst (dispatch xor_cipher (Some peer_A, ''pause'') tk_gone_operator) = Some RuntimeError
   \<and> sent (sockets (snd (dispatch xor_cipher (Some peer_A, ''pause'') tk_gone_operator)) 2) = []
   \<and> deliverable tk_gone_operator 2 12
   \<and> map_of (clients_dict tk_gone_operator) peer_C = Some (2, 12)
   \<and> Some peer_C \<noteq> Some peer_A"
proof -
  let ?s0 = "(print (Log_command ''pause'') tk_gone_operator)\<lparr>pause_event := True\<rparr>"
  have reg: "clients_dict tk_gone_operator = [(peer_A, 0, 10), (peer_B, 1, 11), (peer_C, 2, 12)]"
    by (simp add: tk_gone_operator_def demo_operator_def)
  have disp: "dispatch xor_cipher (Some peer_A, ''pause'') tk_gone_operator
        = pause_loop xor_cipher (Some peer_A) ''pause'' [(peer_B, 1, 11), (peer_C, 2, 12)] ?s0"
    by (simp add: dispatch_def Let_def print_def reg)
  have B: "Some peer_B \<noteq> Some peer_A" and Cn: "Some peer_C \<noteq> Some peer_A"
    by (simp_all add: peer_A_def peer_B_def peer_C_def)
  have nd: "\<not> deliverable ?s0 1 11"
    by (simp add: deliverable_def print_def tk_gone_operator_def demo_operator_def
          sends_ok_def open_socket_def)
  have tk: "\<not> tk_running (gui ?s0)"
    by (simp add: print_def tk_gone_operator_def demo_operator_def)
  from pause_loop_aborts [OF B nd tk, of xor_cipher "''pause''" "[(peer_C, 2, 12)]"]
  obtain s' where l: "pause_loop xor_cipher (Some peer_A) ''pause'' [(peer_B, 1, 11), (peer_C, 2, 12)] ?s0
          = (Some RuntimeError, s')"
    and fr: "\<forall>ref. ref \<noteq> 1 \<longrightarrow> sockets s' ref = sockets ?s0 ref"
    by blast
  have "sockets s' 2 = sockets ?s0 2" using fr by simp
  then have sent: "sent (sockets s' 2) = []"
    by (simp add: print_def tk_gone_operator_def demo_operator_def open_socket_def)
  have dl: "deliverable tk_gone_operator 2 12"
    by (simp add: deliverable_def tk_gone_operator_def demo_operator_def demo_handler_def
          demo_key_def aes_key_size_ok_def sends_ok_def open_socket_def)
  have look: "map_of (clients_dict tk_gone_operator) peer_C = Some (2, 12)"
    unfolding reg by (simp add: peer_A_def peer_B_def peer_C_def)
  show ?thesis
    unfolding disp l using sent dl look Cn by simp
qed

section \<open>Commands for unknown peers, and the frame consumer\<close>

lemma dispatch_unknown_target:
  assumes "cmd \<noteq> ''pause''" and "cmd \<noteq> ''unpause''" and "\<not> prefix ''resize'' cmd"
      and "client_address \<notin> Some ` fst ` set (clients_dict s)"
  shows "dispatch C (client_address, cmd) s = (None, s\<lparr>stdout := stdout s @ [Log_command cmd]\<rparr>)"
proof (cases client_address)
  case None
  then show ?thesis using assms by (simp add: dispatch_def print_def)
next
  case (Some a)
  with assms(4) have "a \<notin> fst ` set (clients_dict s)" by auto
  then have "map_of (clients_dict s) a = None"
    by (simp add: map_of_eq_None_iff)
  then show ?thesis using assms Some by (simp add: dispatch_def print_def)
qed

text \<open>
  Claim C9. A targeted command (not \<^verbatim>\<open>pause\<close>, \<^verbatim>\<open>unpause\<close> or a resize) for an identity
  that is not in the registry is consumed without effect: no exception, nothing written
  to any socket, registry, handlers, pause flag and GUI state unchanged. Only the
  console line that announces every dequeued command is printed.
\<close>

theorem unknown_target_has_no_effect:
  assumes "cmd \<noteq> ''pause''" and "cmd \<noteq> ''unpause''" and "\<not> prefix ''resize'' cmd"
      and "client_address \<notin> Some ` fst ` set (clients_dict s)"
  shows "\<exists>s'. dispatch C (client_address, cmd) s = (None, s')
           \<and> sockets s' = sockets s
           \<and> clients_dict s' = clients_dict s
           \<and> handlers s' = handlers s
           \<and> pause_event s' = pause_event s
           \<and> gui s' = gui s
           \<and> s' = s\<lparr>stdout := stdout s @ [Log_command cmd]\<rparr>"
  using dispatch_unknown_target [OF assms] by simp

theorem unknown_target_has_no_effect_witness:
  "''block'' \<noteq> ''pause'' \<and> ''block'' \<noteq> ''unpause'' \<and> \<not> prefix ''resize'' ''block''
   \<and> Some (''10.0.0.9'', 50009) \<notin> Some ` fst ` set (clients_dict demo_operator)
   \<and> dispatch xor_cipher (Some (''10.0.0.9'', 50009), ''block'') demo_operator
       = (None, demo_operator\<lparr>stdout := [Log_command ''block'']\<rparr>)"
  using unknown_target_has_no_effect [of "''block''" "Some (''10.0.0.9'', 50009)" demo_operator xor_cipher]
  by (simp add: demo_operator_def peer_A_def peer_B_def peer_C_def)

text \<open>
  Claim C4. A dequeued frame with capture timestamp \<open>t\<close> is handed to \<^verbatim>\<open>update_screen\<close>
  if and only if its age is at most half a second and either no full-screen widget is
  shown or the frame comes from the full-screen peer; a frame older than half a second is
  dropped and the drop is logged.
\<close>

theorem frame_consumer_delivers_fresh_frames:
  assumes "frame_queue s = (client_address, frame, timestamp) # q"
  shows "frame_queue (frame_consumer_iteration s) = q
       \<and> screen_updates (gui (frame_consumer_iteration s)) =
           screen_updates (gui s) @
             (if clock s - timestamp \<le> 1 / 2
                 \<and> (\<not> fullscreen_widget (gui s) \<or> fullscreen_address (gui s) = Some client_address)
              then [(client_address, frame)] else [])
       \<and> stdout (frame_consumer_iteration s) =
           stdout s @ (if clock s - timestamp \<le> 1 / 2 then [] else [Log_dropped_stale client_address])"
  using assms
  by (simp add: frame_consumer_iteration_def max_frame_age_def update_screen_def print_def Let_def)

theorem frame_consumer_delivers_fresh_frames_witness:
  "frame_queue (demo_operator\<lparr>frame_queue := [(peer_B, [1, 2, 3], 100 - 4 / 10)]\<rparr>)
      = (peer_B, [1, 2, 3], 100 - 4 / 10) # []
   \<and> screen_updates (gui (frame_consumer_iteration
        (demo_operator\<lparr>frame_queue := [(peer_B, [1, 2, 3], 100 - 4 / 10)]\<rparr>))) = [(peer_B, [1, 2, 3])]
   \<and> stdout (frame_consumer_iteration
        (demo_operator\<lparr>frame_queue := [(peer_B, [1, 2, 3], 100 - 4 / 10)]\<rparr>)) = []
   \<and> screen_updates (gui (frame_consumer_iteration
        (demo_operator\<lparr>frame_queue := [(peer_B, [1, 2, 3], 100 - 6 / 10)]\<rparr>))) = []
   \<and> stdout (frame_consumer_iteration
        (demo_operator\<lparr>frame_queue := [(peer_B, [1, 2, 3], 100 - 6 / 10)]\<rparr>)) = [Log_dropped_stale peer_B]"
  using frame_consumer_delivers_fresh_frames
          [of "demo_operator\<lparr>frame_queue := [(peer_B, [1, 2, 3], 100 - 4 / 10)]\<rparr>" peer_B "[1, 2, 3]" "100 - 4 / 10" "[]"]
        frame_consumer_delivers_fresh_frames
          [of "demo_operator\<lparr>frame_queue := [(peer_B, [1, 2, 3], 100 - 6 / 10)]\<rparr>" peer_B "[1, 2, 3]" "100 - 6 / 10" "[]"]
  by (simp add: demo_operator_def demo_app_def)

section \<open>Zero-length frames\<close>

lemma handler_iteration_zero_length:
  assumes "recv_all (inbox (sockets s (h_client_socket (handlers s th)))) 8 = Inr (size_bytes, rest)"
      and "from_bytes_big size_bytes = 0"
  shows "\<exists>d. handler_iteration C Z th s =
           (Some ConnectionError,
            s\<lparr>clock := clock s + d,
              sockets := (sockets s)(h_client_socket (handlers s th) :=
                 (sockets s (h_client_socket (handlers s th)))\<lparr>inbox := rest\<rparr>)\<rparr>)"
proof (cases "clock s - last_frame_time (handlers s th) < min_frame_interval")
  case True
  show ?thesis
    by (rule exI [of _ "min_frame_interval - (clock s - last_frame_time (handlers s th))"])
       (use assms True in \<open>simp add: handler_iteration_def Let_def sock_recv_all_def sleep_def\<close>)
next
  case False
  show ?thesis
    by (rule exI [of _ 0])
       (use assms False in \<open>simp add: handler_iteration_def Let_def sock_recv_all_def sleep_def\<close>)
qed

text \<open>
  Claim C5, as amended. When the 8-byte length field that the handler reads is zero, its
  loop ends with a connection error and no frame is enqueued; the socket is closed; the
  application's cleanup for the handler's address is scheduled on the GUI thread unless
  the shutdown event is set or the Tk main loop no longer takes the call (\<^verbatim>\<open>root.after\<close>
  raises \<^verbatim>\<open>RuntimeError\<close>, which the handler catches and logs). The registry is left
  as it is.
\<close>

theorem zero_length_frame_ends_handler:
  assumes run: "\<not> h_stop_event (handlers s th)"
      and hdr: "recv_all (inbox (sockets s (h_client_socket (handlers s th)))) 8 = Inr (size_bytes, rest)"
      and zero: "from_bytes_big size_bytes = 0"
  shows "\<exists>s'. handler_run C Z th s = Some s'
          \<and> closed (sockets s' (h_client_socket (handlers s th)))
          \<and> frame_queue s' = frame_queue s
          \<and> clients_dict s' = clients_dict s
          \<and> after_queue (gui s') =
              after_queue (gui s) @
                (if \<not> shutdown_event (gui s) \<and> tk_running (gui s)
                 then [Cleanup (h_client_address (handlers s th))] else [])
          \<and> stdout s' =
              stdout s @ [Log_handler_error (h_client_address (handlers s th)) ConnectionError] @
                (if \<not> shutdown_event (gui s) \<and> \<not> tk_running (gui s)
                 then [Log_gui_closed (h_client_address (handlers s th))] else [])"
proof -
  let ?sock = "h_client_socket (handlers s th)"
  from handler_iteration_zero_length [OF hdr zero, of C Z] obtain d where
    it: "handler_iteration C Z th s =
           (Some ConnectionError,
            s\<lparr>clock := clock s + d,
              sockets := (sockets s)(?sock := (sockets s ?sock)\<lparr>inbox := rest\<rparr>)\<rparr>)"
    by blast
  let ?s1 = "s\<lparr>clock := clock s + d, sockets := (sockets s)(?sock := (sockets s ?sock)\<lparr>inbox := rest\<rparr>)\<rparr>"
  have loop: "handler_loop C Z th s = Some (Some ConnectionError, ?s1)"
    using run it by (subst handler_loop.simps) simp
  have "handler_run C Z th s = Some (handler_finish th (Some ConnectionError) ?s1)"
    by (simp add: handler_run_def loop)
  moreover have "closed (sockets (handler_finish th (Some ConnectionError) ?s1) ?sock)"
    by (simp add: handler_finish_def Let_def print_def root_after_def sock_close_def)
  moreover have "frame_queue (handler_finish th (Some ConnectionError) ?s1) = frame_queue s"
    by (simp add: handler_finish_def Let_def print_def root_after_def)
  moreover have "clients_dict (handler_finish th (Some ConnectionError) ?s1) = clients_dict s"
    by (simp add: handler_finish_def Let_def print_def root_after_def)
  moreover have "after_queue (gui (handler_finish th (Some ConnectionError) ?s1)) =
              after_queue (gui s) @
                (if \<not> shutdown_event (gui s) \<and> tk_running (gui s)
                 then [Cleanup (h_client_address (handlers s th))] else [])"
    by (simp add: handler_finish_def Let_def print_def root_after_def)
  moreover have "stdout (handler_finish th (Some ConnectionError) ?s1) =
              stdout s @ [Log_handler_error (h_client_address (handlers s th)) ConnectionError] @
                (if \<not> shutdown_event (gui s) \<and> \<not> tk_running (gui s)
                 then [Log_gui_closed (h_client_address (handlers s th))] else [])"
    by (simp add: handler_finish_def Let_def print_def root_after_def)
  ultimately show ?thesis by blast
qed

theorem zero_length_frame_ends_handler_witness:
  "\<not> h_stop_event (handlers zero_frame_operator 12)
   \<and> recv_all (inbox (sockets zero_frame_operator (h_client_socket (handlers zero_frame_operator 12)))) 8
        = Inr (replicate 8 0, [[9]])
   \<and> from_bytes_big (replicate 8 0) = 0
   \<and> (\<exists>s'. handler_run xor_cipher Inr 12 zero_frame_operator = Some s'
          \<and> closed (sockets s' 2)
          \<and> frame_queue s' = []
          \<and> after_queue (gui s') = [Cleanup peer_C])"
proof -
  have a: "\<not> h_stop_event (handlers zero_frame_operator 12)"
    by (simp add: zero_frame_operator_def demo_operator_def demo_handler_def)
  have b: "recv_all (inbox (sockets zero_frame_operator (h_client_socket (handlers zero_frame_operator 12)))) 8
        = Inr (replicate 8 0, [[9]])"
    by (simp add: zero_frame_operator_def demo_operator_def demo_handler_def open_socket_def
          recv_all_def recv_all_loop.simps MAX_CHUNK_SIZE_def numeral_eq_Suc)
  have c: "from_bytes_big (replicate 8 0) = 0"
    by (simp add: from_bytes_big_def numeral_eq_Suc)
  from zero_length_frame_ends_handler [OF a b c, of xor_cipher Inr]
  show ?thesis using a b c
    by (simp add: zero_frame_operator_def demo_operator_def demo_handler_def demo_app_def) blast
qed

text \<open>
  Claim C5 as first stated lets the cleanup depend on the shutdown event alone. With the
  shutdown event unset and the Tk main loop gone, the handler that reads a zero length
  field schedules nothing and logs that the GUI is closed.
\<close>

theorem zero_length_frame_cleanup_counterexample:
  "\<not> shutdown_event (gui tk_gone_zero_frame_operator)
   \<and> map_option (after_queue \<circ> gui) (handler_run xor_cipher Inr 12 tk_gone_zero_frame_operator) = Some []
   \<and> map_option stdout (handler_run xor_cipher Inr 12 tk_gone_zero_frame_operator)
        = Some [Log_handler_error peer_C ConnectionError, Log_gui_closed peer_C]"
proof -
  let ?s = tk_gone_zero_frame_operator
  have a: "\<not> h_stop_event (handlers ?s 12)"
    by (simp add: tk_gone_zero_frame_operator_def zero_frame_operator_def demo_operator_def demo_handler_def)
  have b: "recv_all (inbox (sockets ?s (h_client_socket (handlers ?s 12)))) 8 = Inr (replicate 8 0, [[9]])"
    by (simp add: tk_gone_zero_frame_operator_def zero_frame_operator_def demo_operator_def
          demo_handler_def open_socket_def recv_all_def recv_all_loop.simps MAX_CHUNK_SIZE_def
          numeral_eq_Suc)
  have c: "from_bytes_big (replicate 8 0) = 0"
    by (simp add: from_bytes_big_def numeral_eq_Suc)
  from handler_iteration_zero_length [OF b c, of xor_cipher Inr] obtain d where
    it: "handler_iteration xor_cipher Inr 12 ?s =
           (Some ConnectionError,
            ?s\<lparr>clock := clock ?s + d,
              sockets := (sockets ?s)(h_client_socket (handlers ?s 12) :=
                 (sockets ?s (h_client_socket (handlers ?s 12)))\<lparr>inbox := [[9]]\<rparr>)\<rparr>)"
    by blast
  have loop: "handler_loop xor_cipher Inr 12 ?s =
           Some (Some ConnectionError,
            ?s\<lparr>clock := clock ?s + d,
              sockets := (sockets ?s)(h_client_socket (handlers ?s 12) :=
                 (sockets ?s (h_client_socket (handlers ?s 12)))\<lparr>inbox := [[9]]\<rparr>)\<rparr>)"
    using a it by (subst handler_loop.simps) simp
  have g: "gui ?s = demo_app\<lparr>tk_running := False\<rparr>" "stdout ?s = []"
    "h_client_address (handlers ?s 12) = peer_C"
    by (simp_all add: tk_gone_zero_frame_operator_def zero_frame_operator_def demo_operator_def demo_handler_def)
  show ?thesis
    by (simp add: handler_run_def loop handler_finish_def Let_def print_def root_after_def g demo_app_def)
qed

section \<open>One symmetric key per operator run\<close>







lemma keeps_handler_stop: "keeps_keys s (handler_stop th s)"
  by (simp add: keeps_keys_def handler_stop_def)









lemma keeps_send_on: "keeps_keys s (snd (send_on ref d s))"
  by (auto simp: send_on_def keeps_keys_def split: sum.splits)







lemma only_sockets_refl: "only_sockets s s"
  by (simp add: only_sockets_def)


lemma only_sockets_recv: "only_sockets s (snd (sock_recv_all ref n s))"
  by (auto simp: only_sockets_def sock_recv_all_def split: sum.splits)

lemma only_sockets_send: "only_sockets s (snd (send_on ref d s))"
  by (auto simp: only_sockets_def send_on_def split: sum.splits)


lemma sock_recv_all_sent: "sent (sockets (snd (sock_recv_all ref n s)) r) = sent (sockets s r)"
  by (auto simp: sock_recv_all_def split: sum.splits)

lemma send_on_sent:
  "send_on ref d s = (None, s') \<Longrightarrow> sent (sockets s' ref) = sent (sockets s ref) @ [d]"
  using send_on_None [of ref d s s'] sock_send_Inr by fastforce











lemma send_on_set_key:
  "send_on ref d (s\<lparr>srv_aes_key := k\<rparr>) = set_key k (send_on ref d s)"
  by (auto simp: send_on_def set_key_def split: sum.splits)






lemma send_encrypted_None_received:
  assumes C: "block_cipher_ok C" and se: "send_encrypted C key cmd sock s = (None, s1)"
  shows "received C key cmd (sockets s sock) (sockets s1 sock)"
proof -
  from send_encrypted_None [OF se] have k: "aes_key_size_ok key" and ok: "sends_ok (sockets s sock) 3"
    by simp_all
  obtain iv ct where enc: "encrypt_aes C (entropy s) key (encode cmd) = (Inr (iv, ct), snd (os_urandom (entropy s) 16))"
      and ctl: "length ct = 16 * (length cmd div 16 + 1)"
    using encrypt_aes_spec [OF C k, of "entropy s" "encode cmd"] by (auto simp: length_encode)
  have fits: "16 * (length cmd div 16 + 1) < (256::nat) ^ 4"
  proof (rule ccontr)
    assume "\<not> 16 * (length cmd div 16 + 1) < (256::nat) ^ 4"
    then have "to_bytes_big (length ct) 4 = Inl OverflowError"
      using ctl by (simp add: to_bytes_big_def)
    with se enc show False by (simp add: send_encrypted_def)
  qed
  from send_encrypted_delivers [OF C fits k ok] se show ?thesis by auto
qed








end
